theory Spec2Isabelle
  imports Complex_Main "HOL-Library.Log_Nat"
begin

section \<open>Data model (src/db/schema.js)\<close>

text \<open>
  The five tables of \<^verbatim>\<open>src/db/schema.js\<close> (the file \<^verbatim>\<open>src/unnamed/part_000\<close>). A table is the list of its rows; a row is a
  record whose fields are the columns, under the names the handler uses for them. A
  name carries the table's initial where it is taken already: \<open>id\<close> by HOL, and
  \<open>customerName\<close>, \<open>address\<close>, \<open>productId\<close>, \<open>quantity\<close> by the request body. A
  \<open>numeric(12,2)\<close> column holds the decimal it denotes; a nullable column is an
  \<open>option\<close>. The column \<open>created_at\<close> of \<open>orders\<close> is filled by the database clock and is
  read nowhere, it is left out.
\<close>

record user =
  u_id :: int
  username :: string
  password :: string
  role :: "string option"

record category =
  c_id :: int
  c_name :: string

record product =
  p_id :: int
  name :: string
  description :: "string option"
  price :: rat
  stock :: int
  imageUrl :: "string option"
  categoryId :: "int option"

text \<open>
  A JavaScript number: \<open>NaN\<close>, an infinity, or a finite double, given by the rational it
  denotes. The two zeros are one value: they print alike (\<open>0\<close>) and differ in nothing
  the checkout computes.
\<close>

datatype jsnum = NaN | PosInfinity | NegInfinity | Num rat

record order =
  o_id :: int
  o_customerName :: string
  o_address :: string
  totalAmount :: jsnum
  status :: "string option"

record order_item =
  oi_id :: int
  orderId :: int
  oi_productId :: int
  oi_quantity :: int
  priceAtTime :: rat

text \<open>
  What is sent to the store is recorded, statement by statement, so that a property of
  the form ``nothing is read or written'' can be stated.
\<close>

datatype table = Users | Categories | Products | Orders | OrderItems

datatype stmt = Begin | Commit | Rollback | Insert table | Select table | Update table

text \<open>
  The store: the rows of the five tables, the two \<open>serial\<close> sequences the checkout draws
  identifiers from, and the statements issued so far.
\<close>

record database =
  users :: "user list"
  categories :: "category list"
  products :: "product list"
  orders :: "order list"
  orderItems :: "order_item list"
  orders_id_seq :: int
  order_items_id_seq :: int
  issued :: "stmt list"

section \<open>Requests, errors and the store interface\<close>

text \<open>
  The body of \<^verbatim>\<open>POST /api/orders\<close>. The handler reads \<open>productId\<close> and \<open>quantity\<close> of
  an item and nothing else; \<open>clientPrice\<close> stands for a price the client may have put
  into the item.
\<close>

record item =
  productId :: int
  quantity :: int
  clientPrice :: "rat option"

record request =
  customerName :: string
  address :: string
  items :: "item list"

text \<open>
  An exception is a value: \<open>Error m\<close> is \<^verbatim>\<open>throw new Error(m)\<close> of the handler,
  \<open>PostgresError m\<close> an error raised by the driver for a statement.
\<close>

datatype error = Error string | PostgresError string

fun message :: "error \<Rightarrow> string" where
  "message (Error m) = m"
| "message (PostgresError m) = m"

datatype 'a outcome = Threw error | Returned 'a

type_synonym 'a io = "database \<Rightarrow> 'a outcome \<times> database"

text \<open>
  A fault schedule tells, for the statement issued when \<open>k\<close> statements are on record,
  whether the store raises (lost connection, a value the column rejects, a conflict) and
  with which message. The checkout is verified for every schedule.
\<close>

type_synonym faults = "nat \<Rightarrow> string option"

definition no_faults :: faults where
  "no_faults = (\<lambda>k. None)"

definition query :: "faults \<Rightarrow> stmt \<Rightarrow> (database \<Rightarrow> 'a \<times> database) \<Rightarrow> 'a io" where
  "query F s run db =
     (let db1 = db\<lparr>issued := issued db @ [s]\<rparr>
      in case F (length (issued db)) of
           Some m \<Rightarrow> (Threw (PostgresError m), db1)
         | None \<Rightarrow> (case run db1 of (a, db2) \<Rightarrow> (Returned a, db2)))"

definition await :: "'a io \<Rightarrow> ('a \<Rightarrow> 'b io) \<Rightarrow> 'b io" where
  "await m k db =
     (case m db of
        (Threw e, db1) \<Rightarrow> (Threw e, db1)
      | (Returned a, db1) \<Rightarrow> k a db1)"

definition throw :: "error \<Rightarrow> 'a io" where
  "throw e db = (Threw e, db)"

definition return :: "'a \<Rightarrow> 'a io" where
  "return a db = (Returned a, db)"

text \<open>\<^verbatim>\<open>tx.insert(schema.orders).values({...}).returning()\<close>\<close>

definition tx_insert_orders :: "faults \<Rightarrow> string \<Rightarrow> string \<Rightarrow> jsnum \<Rightarrow> string \<Rightarrow> order io" where
  "tx_insert_orders F cn ad amount st =
     query F (Insert Orders)
       (\<lambda>db. let row = \<lparr>o_id = orders_id_seq db, o_customerName = cn, o_address = ad,
                         totalAmount = amount, status = Some st\<rparr>
             in (row, db\<lparr>orders := orders db @ [row],
                        orders_id_seq := orders_id_seq db + 1\<rparr>))"

text \<open>\<^verbatim>\<open>tx.query.products.findFirst({ where: eq(schema.products.id, x) })\<close>\<close>

definition tx_findFirst_products :: "faults \<Rightarrow> int \<Rightarrow> product option io" where
  "tx_findFirst_products F x =
     query F (Select Products) (\<lambda>db. (find (\<lambda>p. p_id p = x) (products db), db))"

text \<open>\<^verbatim>\<open>tx.insert(schema.orderItems).values({orderId, productId, quantity, priceAtTime})\<close>\<close>

definition tx_insert_orderItems :: "faults \<Rightarrow> int \<Rightarrow> int \<Rightarrow> int \<Rightarrow> rat \<Rightarrow> unit io" where
  "tx_insert_orderItems F oid pid q pr =
     query F (Insert OrderItems)
       (\<lambda>db. ((), db\<lparr>orderItems := orderItems db @
                        [\<lparr>oi_id = order_items_id_seq db, orderId = oid, oi_productId = pid,
                          oi_quantity = q, priceAtTime = pr\<rparr>],
                      order_items_id_seq := order_items_id_seq db + 1\<rparr>))"

text \<open>\<^verbatim>\<open>tx.update(schema.products).set({ stock: n }).where(eq(schema.products.id, x))\<close>\<close>

definition tx_update_products_stock :: "faults \<Rightarrow> int \<Rightarrow> int \<Rightarrow> unit io" where
  "tx_update_products_stock F n x =
     query F (Update Products)
       (\<lambda>db. ((), db\<lparr>products :=
                        map (\<lambda>p. if p_id p = x then p\<lparr>stock := n\<rparr> else p) (products db)\<rparr>))"

text \<open>\<^verbatim>\<open>tx.update(schema.orders).set({ totalAmount: t }).where(eq(schema.orders.id, x))\<close>\<close>

definition tx_update_orders_totalAmount :: "faults \<Rightarrow> jsnum \<Rightarrow> int \<Rightarrow> unit io" where
  "tx_update_orders_totalAmount F t x =
     query F (Update Orders)
       (\<lambda>db. ((), db\<lparr>orders :=
                        map (\<lambda>ord. if o_id ord = x then ord\<lparr>totalAmount := t\<rparr> else ord)
                          (orders db)\<rparr>))"

text \<open>
  \<^verbatim>\<open>db.transaction(callback)\<close>: \<open>BEGIN\<close>, the callback, \<open>COMMIT\<close>. When the callback
  throws, or the commit is refused, the rows are those of the snapshot taken at
  \<open>BEGIN\<close>; values drawn from a sequence are not given back, and the record of issued
  statements stays.
\<close>

definition rollback :: "database \<Rightarrow> database \<Rightarrow> database" where
  "rollback snapshot db =
     db\<lparr>users := users snapshot, categories := categories snapshot,
        products := products snapshot, orders := orders snapshot,
        orderItems := orderItems snapshot\<rparr>"

definition db_transaction :: "faults \<Rightarrow> 'a io \<Rightarrow> 'a io" where
  "db_transaction F callback db =
     (case query F Begin (\<lambda>d. ((), d)) db of
        (Threw e, db1) \<Rightarrow> (Threw e, db1)
      | (Returned u, db1) \<Rightarrow>
          (case callback db1 of
             (Threw e, db2) \<Rightarrow> (Threw e, rollback db (db2\<lparr>issued := issued db2 @ [Rollback]\<rparr>))
           | (Returned r, db2) \<Rightarrow>
               (case query F Commit (\<lambda>d. ((), d)) db2 of
                  (Threw e, db3) \<Rightarrow> (Threw e, rollback db db3)
                | (Returned u, db3) \<Rightarrow> (Returned r, db3))))"

section \<open>The checkout handler\<close>

text \<open>
  The repository holds two versions of \<^verbatim>\<open>app.post('/api/orders', ...)\<close>:
  \<open>Original\<close> is the one of \<^verbatim>\<open>src/src/index.js\<close> (lines 117-167), \<open>Revised\<close> the one in
  the second copy of \<^verbatim>\<open>src/index.js\<close>, stored in \<^verbatim>\<open>src/drizzle.config.js\<close> (lines
  150-196). They differ in two expressions: the price that enters the total and the
  text of the stock error. \<open>post_api_orders\<close> is one call on its own; two calls in
  flight together come after it.
\<close>

datatype version = Original | Revised

text \<open>
  The driver hands a \<open>numeric\<close> column to JavaScript as a string. \<open>Original\<close> reads
  \<^verbatim>\<open>product.price.price\<close>: the property \<open>price\<close> of a string, which is \<open>undefined\<close>;
  \<open>Revised\<close> reads \<^verbatim>\<open>product.price\<close>. \<open>parseFloat(undefined)\<close> is \<open>NaN\<close>.
\<close>

datatype jsval = Undefined | DecimalString rat

fun dot_price :: "jsval \<Rightarrow> jsval" where
  "dot_price v = Undefined"

text \<open>
  Arithmetic on numbers is that of IEEE 754 binary64 with rounding to nearest, ties to
  even: the result of an operation is the exact result, rounded. \<open>to_double x\<close> is the
  double nearest to the rational \<open>x\<close>. With \<open>k\<close> the exponent of \<open>x\<close>
  (\<open>2^k \<le> |x| < 2^(k+1)\<close>), the doubles around \<open>x\<close> are the multiples of \<open>2^e\<close>,
  \<open>e = k - 52\<close>, or \<open>e = - 1074\<close> in the subnormal range; a result of \<open>2^1024\<close> or more
  is an infinity.
\<close>

definition pow2 :: "int \<Rightarrow> rat" where
  "pow2 k = (if 0 \<le> k then 2 ^ nat k else 1 / 2 ^ nat (- k))"

definition floor_log2 :: "rat \<Rightarrow> int" where
  "floor_log2 x =
     (case quotient_of x of (p, q) \<Rightarrow>
        (let k = bitlen p - bitlen q in if pow2 k \<le> x then k else k - 1))"

definition ties_to_even :: "rat \<Rightarrow> int" where
  "ties_to_even y =
     (let m = \<lfloor>y\<rfloor>; r = y - of_int m
      in if r < 1 / 2 then m else if 1 / 2 < r then m + 1 else if even m then m else m + 1)"

definition to_double :: "rat \<Rightarrow> jsnum" where
  "to_double x =
     (if x = 0 then Num 0
      else let k = floor_log2 \<bar>x\<bar>;
               e = max (k - 52) (- 1074);
               r = of_int (ties_to_even (\<bar>x\<bar> / pow2 e)) * pow2 e
           in if 1023 \<le> k \<and> pow2 1024 \<le> r
              then (if 0 < x then PosInfinity else NegInfinity)
              else Num (if 0 < x then r else - r))"

text \<open>
  \<open>parseFloat\<close> of the decimal string of a \<open>numeric\<close> value is the double nearest to
  that value. \<open>a + b\<close>, and \<open>a * q\<close> for a quantity \<open>q\<close> (the integer the request's
  number denotes).
\<close>

fun parseFloat :: "jsval \<Rightarrow> jsnum" where
  "parseFloat Undefined = NaN"
| "parseFloat (DecimalString r) = to_double r"

fun js_add :: "jsnum \<Rightarrow> jsnum \<Rightarrow> jsnum" where
  "js_add (Num a) (Num b) = to_double (a + b)"
| "js_add NaN b = NaN"
| "js_add a NaN = NaN"
| "js_add PosInfinity NegInfinity = NaN"
| "js_add NegInfinity PosInfinity = NaN"
| "js_add PosInfinity b = PosInfinity"
| "js_add a PosInfinity = PosInfinity"
| "js_add NegInfinity b = NegInfinity"
| "js_add a NegInfinity = NegInfinity"

fun js_mul :: "jsnum \<Rightarrow> int \<Rightarrow> jsnum" where
  "js_mul (Num a) q = to_double (a * of_int q)"
| "js_mul NaN q = NaN"
| "js_mul PosInfinity q = (if q = 0 then NaN else if 0 < q then PosInfinity else NegInfinity)"
| "js_mul NegInfinity q = (if q = 0 then NaN else if 0 < q then NegInfinity else PosInfinity)"

fun item_price :: "version \<Rightarrow> product \<Rightarrow> jsnum" where
  "item_price Original product = parseFloat (dot_price (DecimalString (price product)))"
| "item_price Revised product = parseFloat (DecimalString (price product))"

text \<open>
  The text of the stock error. \<open>Original\<close>: \<^verbatim>\<open>`Stok ${product?.name} kurang!`\<close>, where a
  missing product prints as \<open>undefined\<close>. \<open>Revised\<close>:
  \<^verbatim>\<open>`Stok ${product?.name || 'Produk'} tidak mencukupi!`\<close>, where \<open>||\<close> takes \<open>'Produk'\<close>
  for a missing product and for an empty name.
\<close>

fun stock_message :: "version \<Rightarrow> product option \<Rightarrow> string" where
  "stock_message Original None = ''Stok undefined kurang!''"
| "stock_message Original (Some p) = ''Stok '' @ name p @ '' kurang!''"
| "stock_message Revised None = ''Stok Produk tidak mencukupi!''"
| "stock_message Revised (Some p) =
     ''Stok '' @ (if name p = [] then ''Produk'' else name p) @ '' tidak mencukupi!''"

text \<open>
  The body of the \<^verbatim>\<open>for (const item of items)\<close> loop, with the running total \<open>tot\<close>:
  the read of the product, and what follows once the read has answered. Stock and
  quantity are integers (the columns are \<open>integer\<close>), on which the comparison and the
  difference of doubles are exact.
\<close>

definition after_findFirst ::
  "version \<Rightarrow> faults \<Rightarrow> order \<Rightarrow> item \<Rightarrow> jsnum \<Rightarrow> product option \<Rightarrow> jsnum io" where
  "after_findFirst v F newOrder item tot =
     (\<lambda>product.
        case product of
          None \<Rightarrow> throw (Error (stock_message v None))
        | Some p \<Rightarrow>
            if stock p < quantity item then throw (Error (stock_message v (Some p)))
            else
              let tot1 = js_add tot (js_mul (item_price v p) (quantity item))
              in await (tx_insert_orderItems F (o_id newOrder) (productId item)
                          (quantity item) (price p))
                   (\<lambda>u. await (tx_update_products_stock F (stock p - quantity item)
                                   (productId item))
                      (\<lambda>u. return tot1)))"

definition process_item :: "version \<Rightarrow> faults \<Rightarrow> order \<Rightarrow> item \<Rightarrow> jsnum \<Rightarrow> jsnum io" where
  "process_item v F newOrder item tot =
     await (tx_findFirst_products F (productId item)) (after_findFirst v F newOrder item tot)"

fun for_items :: "version \<Rightarrow> faults \<Rightarrow> order \<Rightarrow> item list \<Rightarrow> jsnum \<Rightarrow> jsnum io" where
  "for_items v F newOrder [] tot = return tot"
| "for_items v F newOrder (item # rest) tot =
     await (process_item v F newOrder item tot) (for_items v F newOrder rest)"

text \<open>The callback given to \<^verbatim>\<open>db.transaction\<close>; it returns \<open>{ orderId, total }\<close>.\<close>

definition checkout :: "version \<Rightarrow> faults \<Rightarrow> request \<Rightarrow> (int \<times> jsnum) io" where
  "checkout v F req =
     await (tx_insert_orders F (customerName req) (address req) (Num 0) ''pending'')
       (\<lambda>newOrder.
          await (for_items v F newOrder (items req) (Num 0))
            (\<lambda>tot.
               await (tx_update_orders_totalAmount F tot (o_id newOrder))
                 (\<lambda>u. return (o_id newOrder, tot))))"

text \<open>
  The handler: status 200 with \<open>{success: true, orderId, total}\<close>, or status 400 with
  \<open>{success: false, message}\<close> for whatever was thrown. (A total \<open>NaN\<close> is written
  \<open>null\<close> by the JSON encoder.)
\<close>

datatype response = Success int jsnum | Failure string

definition post_api_orders :: "version \<Rightarrow> faults \<Rightarrow> request \<Rightarrow> database \<Rightarrow> response \<times> database" where
  "post_api_orders v F req db =
     (case db_transaction F (checkout v F req) db of
        (Returned (oid, tot), db1) \<Rightarrow> (Success oid tot, db1)
      | (Threw e, db1) \<Rightarrow> (Failure (message e), db1))"

fun succeeded :: "response \<Rightarrow> bool" where
  "succeeded (Success oid t) = True"
| "succeeded (Failure m) = False"

section \<open>Two calls in flight\<close>

text \<open>
  The handler is an \<open>async\<close> function: at every \<open>await\<close> it waits for the store and
  another call may run, each call on a connection and in a transaction of its own. A
  call for a single item is cut here at the \<open>await\<close> of its read of the product:
  \<open>until_first_read\<close> is \<open>BEGIN\<close>, the insert of the order and the read;
  \<open>rest_of_callback\<close> is the callback from the answer of the read on, for a first item
  \<open>item\<close> followed by the items \<open>rest\<close>; \<open>commit\<close> is the \<open>COMMIT\<close> that
  \<open>db.transaction\<close> sends when the callback has returned.
\<close>

definition until_first_read :: "faults \<Rightarrow> request \<Rightarrow> item \<Rightarrow> (order \<times> product option) io" where
  "until_first_read F req item =
     await (query F Begin (\<lambda>d. ((), d)))
       (\<lambda>u. await (tx_insert_orders F (customerName req) (address req) (Num 0) ''pending'')
          (\<lambda>newOrder. await (tx_findFirst_products F (productId item))
             (\<lambda>product. return (newOrder, product))))"

definition rest_of_callback ::
  "version \<Rightarrow> faults \<Rightarrow> item \<Rightarrow> item list \<Rightarrow> order \<times> product option \<Rightarrow> (int \<times> jsnum) io" where
  "rest_of_callback v F item rest s =
     (case s of (newOrder, product) \<Rightarrow>
        await (after_findFirst v F newOrder item (Num 0) product)
          (\<lambda>tot1. await (for_items v F newOrder rest tot1)
             (\<lambda>tot. await (tx_update_orders_totalAmount F tot (o_id newOrder))
                (\<lambda>u. return (o_id newOrder, tot)))))"

definition commit :: "faults \<Rightarrow> unit io" where
  "commit F = query F Commit (\<lambda>d. ((), d))"

text \<open>
  Two calls \<open>r1\<close> and \<open>r2\<close>, of one item each, that both read before either writes:
  \<open>r1\<close> up to its read, \<open>r2\<close> up to its read, then \<open>r1\<close> to its commit, then \<open>r2\<close> to
  its commit. In this order every statement meets only rows that are committed or its
  own transaction's (\<open>r2\<close> reads \<open>products\<close> before \<open>r1\<close> has written it, and writes it
  after \<open>r1\<close> has committed; neither call reads \<open>orders\<close> or \<open>order_items\<close>), so the
  store answers it from the one state below at the default isolation level, read
  committed. The result is the two values returned and the final state; it is \<open>None\<close>
  when a request has not exactly one item or when a call throws (the undoing of one
  transaction beside another is not modelled).
\<close>

definition both_read_then_both_write ::
  "version \<Rightarrow> faults \<Rightarrow> request \<Rightarrow> request \<Rightarrow> database \<Rightarrow>
     ((int \<times> jsnum) \<times> (int \<times> jsnum) \<times> database) option" where
  "both_read_then_both_write v F r1 r2 db =
     (case (items r1, items r2) of
        ([i1], [i2]) \<Rightarrow>
          (case until_first_read F r1 i1 db of
             (Returned s1, db1) \<Rightarrow>
               (case until_first_read F r2 i2 db1 of
                  (Returned s2, db2) \<Rightarrow>
                    (case await (rest_of_callback v F i1 [] s1)
                            (\<lambda>a. await (commit F) (\<lambda>u. return a)) db2 of
                       (Returned a1, db3) \<Rightarrow>
                         (case await (rest_of_callback v F i2 [] s2)
                                 (\<lambda>a. await (commit F) (\<lambda>u. return a)) db3 of
                            (Returned a2, db4) \<Rightarrow> Some (a1, a2, db4)
                          | (Threw e, db4) \<Rightarrow> None)
                     | (Threw e, db3) \<Rightarrow> None)
                | (Threw e, db2) \<Rightarrow> None)
           | (Threw e, db1) \<Rightarrow> None)
      | _ \<Rightarrow> None)"

section \<open>Observations and invariants\<close>

text \<open>
  The stock a reader finds for a product identifier (what \<open>findFirst\<close> returns), the
  quantity a list of items asks of a product, and the value of an order's lines.
\<close>

definition stock_of :: "database \<Rightarrow> int \<Rightarrow> int option" where
  "stock_of db x = map_option stock (find (\<lambda>p. p_id p = x) (products db))"

definition demand :: "item list \<Rightarrow> int \<Rightarrow> int" where
  "demand its x = sum_list (map quantity (filter (\<lambda>i. productId i = x) its))"

definition line_value :: "order_item \<Rightarrow> rat" where
  "line_value oi = priceAtTime oi * of_int (oi_quantity oi)"

definition order_value :: "database \<Rightarrow> int \<Rightarrow> rat" where
  "order_value db oid =
     sum_list (map line_value (filter (\<lambda>oi. orderId oi = oid) (orderItems db)))"

text \<open>
  The same sum as the handler forms it: in doubles, line after line from 0, each line's
  stored price read with \<open>parseFloat\<close> and multiplied by its quantity.
\<close>

definition add_line :: "jsnum \<Rightarrow> order_item \<Rightarrow> jsnum" where
  "add_line t oi =
     js_add t (js_mul (parseFloat (DecimalString (priceAtTime oi))) (oi_quantity oi))"

definition lines_total :: "order_item list \<Rightarrow> jsnum" where
  "lines_total ls = foldl add_line (Num 0) ls"

definition stock_nonneg :: "database \<Rightarrow> bool" where
  "stock_nonneg db = list_all (\<lambda>p. 0 \<le> stock p) (products db)"

text \<open>
  \<open>keeps R m\<close>: whatever \<open>m\<close> does, and whether it returns or throws, the state it
  leaves is related by \<open>R\<close> to the state it started in.
\<close>

definition keeps :: "(database \<Rightarrow> database \<Rightarrow> bool) \<Rightarrow> 'a io \<Rightarrow> bool" where
  "keeps R m = (\<forall>db. R db (snd (m db)))"

definition nonneg_kept :: "database \<Rightarrow> database \<Rightarrow> bool" where
  "nonneg_kept db db' = (stock_nonneg db \<longrightarrow> stock_nonneg db')"

text \<open>
  \<open>stock_suffices db its\<close>: each item finds its product, and asks no more than the stock
  of \<open>db\<close> less what the items before it in the list have taken of the same product.
\<close>

definition stock_suffices :: "database \<Rightarrow> item list \<Rightarrow> bool" where
  "stock_suffices db its =
     (\<forall>k<length its. \<exists>s. stock_of db (productId (its ! k)) = Some s \<and>
        quantity (its ! k) \<le> s - demand (take k its) (productId (its ! k)))"

text \<open>The table a statement reads or writes.\<close>

fun on_table :: "stmt \<Rightarrow> table option" where
  "on_table (Insert t) = Some t"
| "on_table (Select t) = Some t"
| "on_table (Update t) = Some t"
| "on_table s = None"

text \<open>
  \<open>frame S db db'\<close>: from \<open>db\<close> to \<open>db'\<close> the tables \<open>users\<close> and \<open>categories\<close> are the
  same, the table \<open>products\<close> is the same once the column \<open>stock\<close> is blanked, its rows
  with an identifier outside \<open>S\<close> are the same, and the statements issued in between
  are on neither \<open>users\<close> nor \<open>categories\<close>.
\<close>

definition frame :: "int set \<Rightarrow> database \<Rightarrow> database \<Rightarrow> bool" where
  "frame S db db' =
     (users db' = users db \<and> categories db' = categories db \<and>
      map (\<lambda>p. p\<lparr>stock := 0\<rparr>) (products db') = map (\<lambda>p. p\<lparr>stock := 0\<rparr>) (products db) \<and>
      filter (\<lambda>p. p_id p \<notin> S) (products db') = filter (\<lambda>p. p_id p \<notin> S) (products db) \<and>
      (\<exists>new. issued db' = issued db @ new \<and>
         (\<forall>s \<in> set new. on_table s \<noteq> Some Users \<and> on_table s \<noteq> Some Categories)))"

section \<open>A shop to run the handler in\<close>

text \<open>
  The rows \<^verbatim>\<open>src/db/seed.js\<close> inserts (the administrator and three categories), product
  \<open>p1\<close> of the specification's scenarios (stock 5, price 10.00) and a second product.
\<close>

definition p1 :: product where
  "p1 = \<lparr>p_id = 1, name = ''p1'', description = None, price = 10, stock = 5,
          imageUrl = None, categoryId = Some 1\<rparr>"

definition p2 :: product where
  "p2 = \<lparr>p_id = 2, name = ''p2'', description = Some ''teh botol'', price = 5 / 2, stock = 1,
          imageUrl = None, categoryId = Some 2\<rparr>"

definition shop :: database where
  "shop = \<lparr>users = [\<lparr>u_id = 1, username = ''admin'', password = ''(bcrypt hash)'',
                       role = Some ''admin''\<rparr>],
            categories = [\<lparr>c_id = 1, c_name = ''Makanan''\<rparr>, \<lparr>c_id = 2, c_name = ''Minuman''\<rparr>,
                          \<lparr>c_id = 3, c_name = ''Pakaian''\<rparr>],
            products = [p1, p2], orders = [], orderItems = [],
            orders_id_seq = 1, order_items_id_seq = 1, issued = []\<rparr>"

text \<open>A kiosk with one product at 0.10.\<close>

definition permen :: product where
  "permen = \<lparr>p_id = 7, name = ''permen'', description = None, price = 1 / 10, stock = 100,
              imageUrl = None, categoryId = None\<rparr>"

definition kiosk :: database where
  "kiosk = \<lparr>users = [], categories = [], products = [permen], orders = [], orderItems = [],
             orders_id_seq = 1, order_items_id_seq = 1, issued = []\<rparr>"

definition buy :: "int \<Rightarrow> int \<Rightarrow> item" where
  "buy x q = \<lparr>productId = x, quantity = q, clientPrice = None\<rparr>"

definition cart :: "item list \<Rightarrow> request" where
  "cart its = \<lparr>customerName = ''Ani'', address = ''Jl. Mawar 1'', items = its\<rparr>"

section \<open>The double nearest to a rational\<close>

text \<open>
  \<open>floor_log2\<close> is the exponent, \<open>ties_to_even\<close> is within a half of its argument, and
  so a finite \<open>to_double x\<close> is a multiple of the spacing of the doubles around \<open>x\<close>, at
  most half that spacing away from \<open>x\<close>.
\<close>

lemma ties_to_even_near: "\<bar>of_int (ties_to_even y) - y\<bar> \<le> 1 / 2"
proof -
  have "of_int \<lfloor>y\<rfloor> \<le> y" "y < of_int \<lfloor>y\<rfloor> + 1" by linarith+
  then show ?thesis
    unfolding ties_to_even_def Let_def by (simp add: abs_if) linarith
qed

lemma pow2_powi: "pow2 k = 2 powi k"
  by (simp add: pow2_def power_int_def inverse_eq_divide power_one_over)

lemma bitlen_power_bounds:
  assumes "0 < p"
  shows "(2::rat) powi (bitlen p - 1) \<le> of_int p" "of_int p < (2::rat) powi (bitlen p)"
proof -
  have b: "1 \<le> bitlen p" using assms bitlen_eq_zero_iff[of p] bitlen_nonneg[of p] by linarith
  from bitlen_bounds[OF assms] have
    lo: "2 ^ nat (bitlen p - 1) \<le> p" and hi: "p < 2 ^ nat (bitlen p)" by auto
  have "(of_int (2 ^ nat (bitlen p - 1)) :: rat) \<le> of_int p" using lo by (simp only: of_int_le_iff)
  then show "(2::rat) powi (bitlen p - 1) \<le> of_int p" using b by (simp add: power_int_def)
  have "(of_int p :: rat) < of_int (2 ^ nat (bitlen p))" using hi by (simp only: of_int_less_iff)
  then show "of_int p < (2::rat) powi (bitlen p)" using b by (simp add: power_int_def)
qed

lemma floor_log2_bounds:
  assumes "0 < x"
  shows "pow2 (floor_log2 x) \<le> x \<and> x < pow2 (floor_log2 x + 1)"
proof -
  obtain p q where pq: "quotient_of x = (p, q)" by (cases "quotient_of x")
  then have q: "0 < q" and x: "x = of_int p / of_int q"
    using quotient_of_denom_pos quotient_of_div by blast+
  with assms have p: "0 < p" by (simp add: zero_less_divide_iff)
  let ?k = "bitlen p - bitlen q"
  note bp = bitlen_power_bounds[OF p] and bq = bitlen_power_bounds[OF q]
  have "(2::rat) powi (bitlen p - 1) / 2 powi (bitlen q) \<le> of_int p / of_int q"
    using bp(1) bq(2) q p by (intro frac_le) auto
  moreover have "(2::rat) powi (bitlen p - 1) / 2 powi (bitlen q) = 2 powi (?k - 1)"
    by (simp add: power_int_diff)
  ultimately have lo: "pow2 (?k - 1) \<le> x" by (simp add: pow2_powi x)
  have "of_int p / of_int q < (2::rat) powi (bitlen p) / 2 powi (bitlen q - 1)"
    using bp(2) bq(1) q p by (intro frac_less) auto
  moreover have "(2::rat) powi (bitlen p) / 2 powi (bitlen q - 1) = 2 powi (?k + 1)"
    by (simp add: power_int_diff power_int_add)
  ultimately have hi: "x < pow2 (?k + 1)" by (simp add: pow2_powi x)
  show ?thesis
    using lo hi pq by (auto simp: floor_log2_def Let_def)
qed


lemma abs_scale:
  fixes u a b :: rat
  assumes "0 < u"
  shows "\<bar>a - b / u\<bar> * u = \<bar>a * u - b\<bar>"
proof -
  have "\<bar>a - b / u\<bar> * u = \<bar>(a - b / u) * u\<bar>" using assms by (simp add: abs_mult)
  also have "(a - b / u) * u = a * u - b" using assms by (simp add: field_simps)
  finally show ?thesis .
qed

lemma to_double_nearest:
  assumes "x \<noteq> 0" and "to_double x = Num r"
  shows "\<exists>m. r = of_int m * pow2 (max (floor_log2 \<bar>x\<bar> - 52) (- 1074)) \<and>
             \<bar>r - x\<bar> \<le> pow2 (max (floor_log2 \<bar>x\<bar> - 52) (- 1074)) / 2"
proof -
  let ?u = "pow2 (max (floor_log2 \<bar>x\<bar> - 52) (- 1074))"
  let ?m = "ties_to_even (\<bar>x\<bar> / ?u)"
  have u: "0 < ?u" by (simp add: pow2_def)
  have "\<bar>of_int ?m - \<bar>x\<bar> / ?u\<bar> \<le> 1 / 2" by (rule ties_to_even_near)
  then have "\<bar>of_int ?m - \<bar>x\<bar> / ?u\<bar> * ?u \<le> 1 / 2 * ?u"
    using u by (intro mult_right_mono) auto
  then have "\<bar>of_int ?m * ?u - \<bar>x\<bar>\<bar> \<le> 1 / 2 * ?u"
    unfolding abs_scale[OF u] .
  then have near: "\<bar>of_int ?m * ?u - \<bar>x\<bar>\<bar> \<le> ?u / 2" by simp
  from assms have r: "r = (if 0 < x then of_int ?m * ?u else - (of_int ?m * ?u))"
    by (auto simp: to_double_def Let_def split: if_splits)
  show ?thesis
  proof (cases "0 < x")
    case True
    then show ?thesis using r near by (intro exI[of _ ?m]) auto
  next
    case False
    with assms(1) have "x < 0" by simp
    then show ?thesis using r near by (intro exI[of _ "- ?m"]) (auto simp: abs_if split: if_splits)
  qed
qed

section \<open>Reasoning about the store interface\<close>

text \<open>
  A relation between the state before and the state after that is reflexive and
  transitive, and that every statement respects, is respected by the loop, the callback
  and the handler, on every path including those that throw.
\<close>

lemma keeps_return: "reflp R \<Longrightarrow> keeps R (return a)"
  by (simp add: keeps_def return_def reflp_def)

lemma keeps_throw: "reflp R \<Longrightarrow> keeps R (throw e)"
  by (simp add: keeps_def throw_def reflp_def)

lemma keeps_await:
  assumes "transp R" and "keeps R m" and "\<And>a. keeps R (k a)"
  shows "keeps R (await m k)"
  unfolding keeps_def
proof
  fix db
  obtain r db1 where m: "m db = (r, db1)" by (cases "m db")
  have 1: "R db db1" using assms(2) m by (auto simp: keeps_def dest: spec[of _ db])
  show "R db (snd (await m k db))"
  proof (cases r)
    case (Threw e)
    then show ?thesis using m 1 by (simp add: await_def)
  next
    case (Returned a)
    have "R db1 (snd (k a db1))" using assms(3)[of a] by (simp add: keeps_def)
    with 1 have "R db (snd (k a db1))" using assms(1) by (blast dest: transpD)
    then show ?thesis using m Returned by (simp add: await_def)
  qed
qed

lemma keeps_query:
  assumes "transp R"
    and "\<And>db. R db (db\<lparr>issued := issued db @ [s]\<rparr>)"
    and "\<And>db. R db (snd (run db))"
  shows "keeps R (query F s run)"
  unfolding keeps_def
proof
  fix db :: database
  let ?db1 = "db\<lparr>issued := issued db @ [s]\<rparr>"
  have a: "R db ?db1" by (rule assms(2))
  have b: "R ?db1 (snd (run ?db1))" by (rule assms(3))
  from a b have c: "R db (snd (run ?db1))" using assms(1) by (blast dest: transpD)
  show "R db (snd (query F s run db))"
    using a c by (auto simp: query_def Let_def split: option.split prod.split)
qed

lemma keeps_for_items:
  assumes "transp R" "reflp R"
    and "\<And>it t. it \<in> set its \<Longrightarrow> keeps R (process_item v F newOrder it t)"
  shows "keeps R (for_items v F newOrder its tot)"
  using assms(3)
proof (induction its arbitrary: tot)
  case Nil
  show ?case using assms(2) by (simp add: keeps_return)
next
  case (Cons it its)
  show ?case using assms(1) Cons by (simp add: keeps_await)
qed

text \<open>Non-negative stocks: the update writes \<open>stock p - quantity item\<close> after the check.\<close>

lemma nonneg_kept_preorder: "reflp nonneg_kept" "transp nonneg_kept"
  by (auto simp: reflp_def transp_def nonneg_kept_def)

lemma nonneg_issued: "nonneg_kept db (db\<lparr>issued := l\<rparr>)"
  by (simp add: nonneg_kept_def stock_nonneg_def)

lemma keeps_nonneg_findFirst: "keeps nonneg_kept (tx_findFirst_products F x)"
  unfolding tx_findFirst_products_def
  by (rule keeps_query) (simp_all add: nonneg_kept_preorder nonneg_issued, simp add: nonneg_kept_def)

lemma keeps_nonneg_insert_orderItems: "keeps nonneg_kept (tx_insert_orderItems F a b c d)"
  unfolding tx_insert_orderItems_def
  by (rule keeps_query) (simp_all add: nonneg_kept_preorder nonneg_issued, simp add: nonneg_kept_def stock_nonneg_def)

lemma list_all_set_stock:
  "0 \<le> n \<Longrightarrow> list_all (\<lambda>p. 0 \<le> stock p) ps \<Longrightarrow>
   list_all (\<lambda>p. 0 \<le> stock p) (map (\<lambda>p. if p_id p = x then p\<lparr>stock := n\<rparr> else p) ps)"
  by (induction ps) auto

lemma keeps_nonneg_update_stock: "0 \<le> n \<Longrightarrow> keeps nonneg_kept (tx_update_products_stock F n x)"
  unfolding tx_update_products_stock_def
  by (rule keeps_query) (simp_all add: nonneg_kept_preorder nonneg_issued, simp add: nonneg_kept_def stock_nonneg_def list_all_set_stock)

lemma keeps_nonneg_process_item: "keeps nonneg_kept (process_item v F newOrder it t)"
  unfolding process_item_def after_findFirst_def Let_def
  by (intro keeps_await keeps_nonneg_findFirst nonneg_kept_preorder)
     (auto split: option.split intro!: keeps_await keeps_throw keeps_return nonneg_kept_preorder
        keeps_nonneg_insert_orderItems keeps_nonneg_update_stock)

lemma keeps_nonneg_checkout: "keeps nonneg_kept (checkout v F req)"
  unfolding checkout_def tx_insert_orders_def tx_update_orders_totalAmount_def
  by (intro keeps_await keeps_query keeps_return keeps_for_items keeps_nonneg_process_item
        nonneg_kept_preorder nonneg_issued)
     (simp_all add: nonneg_kept_def stock_nonneg_def Let_def)

text \<open>The four ways a transaction ends.\<close>

lemma db_transaction_cases:
  assumes "db_transaction F cb db = (r, db')"
  obtains
    (begin_failed) m where "r = Threw (PostgresError m)" "db' = db\<lparr>issued := issued db @ [Begin]\<rparr>"
  | (rolled_back) e db2 where "cb (db\<lparr>issued := issued db @ [Begin]\<rparr>) = (Threw e, db2)"
      "r = Threw e" "db' = rollback db (db2\<lparr>issued := issued db2 @ [Rollback]\<rparr>)"
  | (commit_failed) a db2 m where "cb (db\<lparr>issued := issued db @ [Begin]\<rparr>) = (Returned a, db2)"
      "r = Threw (PostgresError m)" "db' = rollback db (db2\<lparr>issued := issued db2 @ [Commit]\<rparr>)"
  | (committed) a db2 where "cb (db\<lparr>issued := issued db @ [Begin]\<rparr>) = (Returned a, db2)"
      "r = Returned a" "db' = db2\<lparr>issued := issued db2 @ [Commit]\<rparr>"
      "F (length (issued db)) = None" "F (length (issued db2)) = None"
  using assms
  by (auto simp: db_transaction_def query_def Let_def split: option.splits prod.splits outcome.splits)

text \<open>
  The doubles the scenarios meet. Integers and 2.5 are doubles; 0.1 is not, and neither
  is three times the double nearest to it.
\<close>

lemma to_double_0: "to_double 0 = Num 0"
  by (simp add: to_double_def)

lemma to_double_10: "to_double 10 = Num 10"
  by code_simp

lemma to_double_20: "to_double 20 = Num 20"
  by code_simp

lemma to_double_30: "to_double 30 = Num 30"
  by code_simp

lemma to_double_minus_30: "to_double (- 30) = Num (- 30)"
  by code_simp

lemma to_double_5_2: "to_double (5 / 2) = Num (5 / 2)"
  by code_simp

lemma to_double_1_10: "to_double (1 / 10) = Num (3602879701896397 / 36028797018963968)"
  by code_simp

lemma to_double_3_tenths:
  "to_double (10808639105689191 / 36028797018963968) = Num (1351079888211149 / 4503599627370496)"
  by code_simp

lemma to_double_0_30000000000000004:
  "to_double (1351079888211149 / 4503599627370496) = Num (1351079888211149 / 4503599627370496)"
  by code_simp

text \<open>Known values: 0.1 + 0.2, and the two ties next to \<open>2^53\<close>.\<close>

lemma double_spot_checks:
  "to_double (1 / 5) = Num (3602879701896397 / 18014398509481984)"
  "js_add (Num (3602879701896397 / 36028797018963968)) (Num (3602879701896397 / 18014398509481984))
     = Num (1351079888211149 / 4503599627370496)"
  "to_double 9007199254740993 = Num 9007199254740992"
  "to_double 9007199254740995 = Num 9007199254740996"
  by code_simp+

lemmas double_values =
  to_double_0 to_double_10 to_double_20 to_double_30 to_double_minus_30 to_double_5_2
  to_double_1_10

lemmas run_defs =
  post_api_orders_def db_transaction_def checkout_def process_item_def after_findFirst_def
  await_def query_def throw_def return_def rollback_def tx_insert_orders_def
  tx_findFirst_products_def tx_insert_orderItems_def tx_update_products_stock_def
  tx_update_orders_totalAmount_def no_faults_def cart_def buy_def shop_def p1_def p2_def Let_def
  double_values

section \<open>What a run that returns has done\<close>

text \<open>
  These facts hold for every fault schedule: a run that returns has met no fault.
\<close>

lemma find_map_set_stock:
  "find (\<lambda>p. p_id p = x) (map (\<lambda>p. if p_id p = y then p\<lparr>stock := n\<rparr> else p) ps) =
   map_option (\<lambda>p. if p_id p = y then p\<lparr>stock := n\<rparr> else p) (find (\<lambda>p. p_id p = x) ps)"
  by (induction ps) auto

lemma find_p_id: "find (\<lambda>p. p_id p = x) ps = Some p \<Longrightarrow> p_id p = x"
  by (auto simp: find_Some_iff)

lemma process_item_Returned:
  assumes "process_item v F newOrder it tot db = (Returned t, db')"
  obtains p where
    "find (\<lambda>p. p_id p = productId it) (products db) = Some p"
    "quantity it \<le> stock p"
    "t = js_add tot (js_mul (item_price v p) (quantity it))"
    "products db' = map (\<lambda>r. if p_id r = productId it then r\<lparr>stock := stock p - quantity it\<rparr> else r)
                      (products db)"
    "orderItems db' = orderItems db @
       [\<lparr>oi_id = order_items_id_seq db, orderId = o_id newOrder, oi_productId = productId it,
         oi_quantity = quantity it, priceAtTime = price p\<rparr>]"
    "issued db' = issued db @ [Select Products, Insert OrderItems, Update Products]"
  using assms
  by (auto simp: process_item_def after_findFirst_def await_def query_def throw_def return_def Let_def
        tx_findFirst_products_def tx_insert_orderItems_def tx_update_products_stock_def
      split: option.splits prod.splits outcome.splits if_splits)

lemma process_item_healthy:
  "fst (process_item v no_faults newOrder it tot db) =
     (case find (\<lambda>p. p_id p = productId it) (products db) of
        None \<Rightarrow> Threw (Error (stock_message v None))
      | Some p \<Rightarrow> if stock p < quantity it then Threw (Error (stock_message v (Some p)))
                  else Returned (js_add tot (js_mul (item_price v p) (quantity it))))"
  by (auto simp: process_item_def after_findFirst_def await_def query_def throw_def return_def Let_def no_faults_def
        tx_findFirst_products_def tx_insert_orderItems_def tx_update_products_stock_def
      split: option.splits prod.splits outcome.splits if_splits)

lemma process_item_stock_of:
  assumes "process_item v F newOrder it tot db = (Returned t, db')"
  shows "stock_of db' x =
     map_option (\<lambda>s. s - (if productId it = x then quantity it else 0)) (stock_of db x)"
  using assms
proof (cases rule: process_item_Returned)
  case (1 p)
  show ?thesis
  proof (cases "productId it = x")
    case True
    then show ?thesis using 1(1,4) find_p_id[OF 1(1)]
      by (simp add: stock_of_def find_map_set_stock)
  next
    case False
    then show ?thesis using 1(4)
      by (cases "find (\<lambda>p. p_id p = x) (products db)")
         (auto simp: stock_of_def find_map_set_stock dest: find_p_id)
  qed
qed

lemma demand_Nil [simp]: "demand [] x = 0"
  by (simp add: demand_def)

lemma demand_Cons [simp]:
  "demand (it # its) x = (if productId it = x then quantity it else 0) + demand its x"
  by (simp add: demand_def)

lemma for_items_stock_of:
  assumes "for_items v F newOrder its tot db = (Returned t, db')"
  shows "stock_of db' x = map_option (\<lambda>s. s - demand its x) (stock_of db x)"
  using assms
proof (induction its arbitrary: tot db)
  case Nil
  then show ?case by (simp add: return_def option.map_ident)
next
  case (Cons it its)
  from Cons.prems obtain t1 db1 where
    step: "process_item v F newOrder it tot db = (Returned t1, db1)" and
    rest: "for_items v F newOrder its t1 db1 = (Returned t, db')"
    by (auto simp: await_def split: prod.splits outcome.splits)
  show ?case
    unfolding Cons.IH[OF rest] process_item_stock_of[OF step]
    by (cases "stock_of db x") auto
qed

text \<open>The lines a run of the loop appends, and the total it returns.\<close>

lemma for_items_lines:
  assumes "for_items v F newOrder its tot db = (Returned t, db')"
  shows "\<exists>new. orderItems db' = orderItems db @ new \<and>
           map orderId new = replicate (length its) (o_id newOrder) \<and>
           map oi_productId new = map productId its \<and>
           map oi_quantity new = map quantity its \<and>
           (v = Revised \<longrightarrow> t = foldl add_line tot new)"
  using assms
proof (induction its arbitrary: tot db)
  case Nil
  then show ?case by (auto simp: return_def)
next
  case (Cons it its)
  from Cons.prems obtain t1 db1 where
    step: "process_item v F newOrder it tot db = (Returned t1, db1)" and
    rest: "for_items v F newOrder its t1 db1 = (Returned t, db')"
    by (auto simp: await_def split: prod.splits outcome.splits)
  from step obtain p where
    t1: "t1 = js_add tot (js_mul (item_price v p) (quantity it))" and
    l1: "orderItems db1 = orderItems db @
       [\<lparr>oi_id = order_items_id_seq db, orderId = o_id newOrder, oi_productId = productId it,
         oi_quantity = quantity it, priceAtTime = price p\<rparr>]"
    by (cases rule: process_item_Returned) blast
  let ?row = "\<lparr>oi_id = order_items_id_seq db, orderId = o_id newOrder,
               oi_productId = productId it, oi_quantity = quantity it, priceAtTime = price p\<rparr>"
  from Cons.IH[OF rest] obtain new where
    n1: "orderItems db' = orderItems db1 @ new" and
    n2: "map orderId new = replicate (length its) (o_id newOrder)" and
    n3: "map oi_productId new = map productId its" and
    n4: "map oi_quantity new = map quantity its" and
    n5: "v = Revised \<longrightarrow> t = foldl add_line t1 new"
    by blast
  have "orderItems db' = orderItems db @ (?row # new)" using n1 l1 by simp
  moreover have "map orderId (?row # new) = replicate (length (it # its)) (o_id newOrder)"
    using n2 by simp
  moreover have "map oi_productId (?row # new) = map productId (it # its)" using n3 by simp
  moreover have "map oi_quantity (?row # new) = map quantity (it # its)" using n4 by simp
  moreover have "v = Revised \<longrightarrow> t = foldl add_line tot (?row # new)"
    using n5 t1 by (simp add: add_line_def)
  ultimately show ?case by blast
qed

text \<open>The statements a run of the loop issues: one read of \<open>products\<close> for each item.\<close>

lemma for_items_issued:
  assumes "for_items v F newOrder its tot db = (Returned t, db')"
  shows "issued db' = issued db @
           concat (map (\<lambda>it. [Select Products, Insert OrderItems, Update Products]) its)"
  using assms
proof (induction its arbitrary: tot db)
  case Nil
  then show ?case by (simp add: return_def)
next
  case (Cons it its)
  from Cons.prems obtain t1 db1 where
    step: "process_item v F newOrder it tot db = (Returned t1, db1)" and
    rest: "for_items v F newOrder its t1 db1 = (Returned t, db')"
    by (auto simp: await_def split: prod.splits outcome.splits)
  from step have "issued db1 = issued db @ [Select Products, Insert OrderItems, Update Products]"
    by (cases rule: process_item_Returned)
  with Cons.IH[OF rest] show ?case by simp
qed

lemma checkout_Returned:
  assumes "checkout v F req db = (Returned (oid, t), db')"
  shows "oid = orders_id_seq db \<and>
    (\<exists>db2. for_items v F
        \<lparr>o_id = orders_id_seq db, o_customerName = customerName req, o_address = address req,
          totalAmount = Num 0, status = Some ''pending''\<rparr>
        (items req) (Num 0)
        (db\<lparr>issued := issued db @ [Insert Orders],
            orders := orders db @
              [\<lparr>o_id = orders_id_seq db, o_customerName = customerName req,
                o_address = address req, totalAmount = Num 0, status = Some ''pending''\<rparr>],
            orders_id_seq := orders_id_seq db + 1\<rparr>) = (Returned t, db2) \<and>
      products db' = products db2 \<and> orderItems db' = orderItems db2 \<and>
      issued db' = issued db2 @ [Update Orders])"
  using assms
  by (auto simp: checkout_def await_def query_def return_def Let_def
        tx_insert_orders_def tx_update_orders_totalAmount_def
      split: option.splits prod.splits outcome.splits)

lemma post_api_orders_Success:
  assumes "post_api_orders v F req db = (Success oid t, db')"
  obtains db2 where
    "checkout v F req (db\<lparr>issued := issued db @ [Begin]\<rparr>) = (Returned (oid, t), db2)"
    "db' = db2\<lparr>issued := issued db2 @ [Commit]\<rparr>"
proof -
  obtain r where run: "db_transaction F (checkout v F req) db = (r, db')"
    using assms
    by (cases "db_transaction F (checkout v F req) db")
       (auto simp: post_api_orders_def split: outcome.splits prod.splits)
  have r: "r = Returned (oid, t)"
    using assms run by (cases r) (auto simp: post_api_orders_def)
  from run show ?thesis
    by (cases rule: db_transaction_cases) (use r that in auto)
qed

lemma filter_all_same:
  "\<forall>x \<in> set xs. P x \<Longrightarrow> filter P xs = xs"
  by (induction xs) auto

lemma success_effects:
  assumes "post_api_orders v F req db = (Success oid t, db')"
  shows "oid = orders_id_seq db"
    and "stock_of db' x = map_option (\<lambda>s. s - demand (items req) x) (stock_of db x)"
    and "\<exists>new. orderItems db' = orderItems db @ new \<and>
           map orderId new = replicate (length (items req)) oid \<and>
           map oi_productId new = map productId (items req) \<and>
           map oi_quantity new = map quantity (items req) \<and>
           (v = Revised \<longrightarrow> t = lines_total new)"
    and "issued db' = issued db @ [Begin, Insert Orders] @
           concat (map (\<lambda>it. [Select Products, Insert OrderItems, Update Products]) (items req)) @
           [Update Orders, Commit]"
proof -
  from assms obtain db2 where
    cb: "checkout v F req (db\<lparr>issued := issued db @ [Begin]\<rparr>) = (Returned (oid, t), db2)" and
    db': "db' = db2\<lparr>issued := issued db2 @ [Commit]\<rparr>"
    by (rule post_api_orders_Success)
  let ?db0 = "db\<lparr>issued := issued db @ [Begin]\<rparr>"
  let ?newOrder = "\<lparr>o_id = orders_id_seq db, o_customerName = customerName req,
      o_address = address req, totalAmount = Num 0, status = Some ''pending''\<rparr>"
  let ?db1 = "?db0\<lparr>issued := issued ?db0 @ [Insert Orders], orders := orders ?db0 @ [?newOrder],
           orders_id_seq := orders_id_seq ?db0 + 1\<rparr>"
  from checkout_Returned[OF cb] obtain db3 where
    oid: "oid = orders_id_seq db" and
    loop: "for_items v F ?newOrder (items req) (Num 0) ?db1 = (Returned t, db3)" and
    p: "products db2 = products db3" and l: "orderItems db2 = orderItems db3" and
    i: "issued db2 = issued db3 @ [Update Orders]"
    by auto
  show "oid = orders_id_seq db" by (rule oid)
  show "issued db' = issued db @ [Begin, Insert Orders] @
           concat (map (\<lambda>it. [Select Products, Insert OrderItems, Update Products]) (items req)) @
           [Update Orders, Commit]"
    using for_items_issued[OF loop] i db' by simp
  have s1: "stock_of ?db1 x = stock_of db x" by (simp add: stock_of_def)
  have s3: "stock_of db' x = stock_of db3 x" using p db' by (simp add: stock_of_def)
  show "stock_of db' x = map_option (\<lambda>s. s - demand (items req) x) (stock_of db x)"
    using for_items_stock_of[OF loop, of x] s1 s3 by simp
  from for_items_lines[OF loop] obtain new where
    "orderItems db3 = orderItems db @ new"
    "map orderId new = replicate (length (items req)) oid"
    "map oi_productId new = map productId (items req)"
    "map oi_quantity new = map quantity (items req)"
    "v = Revised \<longrightarrow> t = lines_total new"
    using oid by (auto simp: lines_total_def)
  then show "\<exists>new. orderItems db' = orderItems db @ new \<and>
           map orderId new = replicate (length (items req)) oid \<and>
           map oi_productId new = map productId (items req) \<and>
           map oi_quantity new = map quantity (items req) \<and>
           (v = Revised \<longrightarrow> t = lines_total new)"
    using db' l by auto
qed


lemma succeeded_iff: "succeeded r \<longleftrightarrow> (\<exists>oid t. r = Success oid t)"
  by (cases r) auto

section \<open>Which requests go through\<close>

text \<open>With a store that raises no error, the only refusals are those of the stock check.\<close>

lemma stock_suffices_Nil [simp]: "stock_suffices db []"
  by (simp add: stock_suffices_def)

lemma stock_suffices_Cons:
  "stock_suffices db (it # its) \<longleftrightarrow>
     (\<exists>s. stock_of db (productId it) = Some s \<and> quantity it \<le> s) \<and>
     (\<forall>j<length its. \<exists>s. stock_of db (productId (its ! j)) = Some s \<and>
        quantity (its ! j) \<le>
          s - (if productId it = productId (its ! j) then quantity it else 0)
            - demand (take j its) (productId (its ! j)))"
  by (simp add: stock_suffices_def All_less_Suc2 algebra_simps)

lemma stock_suffices_after:
  assumes "\<And>x. stock_of db1 x =
     map_option (\<lambda>s. s - (if productId it = x then quantity it else 0)) (stock_of db x)"
  shows "stock_suffices db1 its \<longleftrightarrow>
     (\<forall>j<length its. \<exists>s. stock_of db (productId (its ! j)) = Some s \<and>
        quantity (its ! j) \<le>
          s - (if productId it = productId (its ! j) then quantity it else 0)
            - demand (take j its) (productId (its ! j)))"
  unfolding stock_suffices_def assms
  by (intro all_cong1 imp_cong refl) auto

lemma process_item_passes:
  shows "(\<exists>t db'. process_item v no_faults newOrder it tot db = (Returned t, db')) \<longleftrightarrow>
         (\<exists>s. stock_of db (productId it) = Some s \<and> quantity it \<le> s)"
proof -
  have "(\<exists>t db'. process_item v no_faults newOrder it tot db = (Returned t, db')) \<longleftrightarrow>
        (\<exists>t. fst (process_item v no_faults newOrder it tot db) = Returned t)"
    by (cases "process_item v no_faults newOrder it tot db") auto
  also have "\<dots> \<longleftrightarrow> (\<exists>s. stock_of db (productId it) = Some s \<and> quantity it \<le> s)"
    unfolding process_item_healthy
    by (auto simp: stock_of_def split: option.splits)
  finally show ?thesis .
qed

lemma for_items_passes:
  shows "(\<exists>t db'. for_items v no_faults newOrder its tot db = (Returned t, db')) \<longleftrightarrow>
         stock_suffices db its"
proof (induction its arbitrary: tot db)
  case Nil
  show ?case by (simp add: return_def)
next
  case (Cons it its)
  show ?case
  proof (cases "\<exists>t db'. process_item v no_faults newOrder it tot db = (Returned t, db')")
    case True
    then obtain t1 db1 where step: "process_item v no_faults newOrder it tot db = (Returned t1, db1)"
      by blast
    have head: "\<exists>s. stock_of db (productId it) = Some s \<and> quantity it \<le> s"
      using True process_item_passes by blast
    have "(\<exists>t db'. for_items v no_faults newOrder (it # its) tot db = (Returned t, db')) \<longleftrightarrow>
          (\<exists>t db'. for_items v no_faults newOrder its t1 db1 = (Returned t, db'))"
      using step by (simp add: await_def)
    also have "\<dots> \<longleftrightarrow> stock_suffices db1 its" by (rule Cons.IH)
    also have "\<dots> \<longleftrightarrow> stock_suffices db (it # its)"
      unfolding stock_suffices_Cons
      using head stock_suffices_after[of db1 it db its, OF process_item_stock_of[OF step]]
      by simp
    finally show ?thesis .
  next
    case False
    then have nohead: "\<not> (\<exists>s. stock_of db (productId it) = Some s \<and> quantity it \<le> s)"
      using process_item_passes by blast
    have "\<not> (\<exists>t db'. for_items v no_faults newOrder (it # its) tot db = (Returned t, db'))"
      using False
      by (cases "process_item v no_faults newOrder it tot db")
         (auto simp: await_def split: outcome.splits)
    then show ?thesis using nohead by (simp add: stock_suffices_Cons)
  qed
qed

lemma checkout_passes:
  shows "(\<exists>r db'. checkout v no_faults req db = (Returned r, db')) \<longleftrightarrow> stock_suffices db (items req)"
proof -
  let ?newOrder = "\<lparr>o_id = orders_id_seq db, o_customerName = customerName req,
      o_address = address req, totalAmount = Num 0, status = Some ''pending''\<rparr>"
  let ?db1 = "db\<lparr>issued := issued db @ [Insert Orders], orders := orders db @ [?newOrder],
           orders_id_seq := orders_id_seq db + 1\<rparr>"
  have "(\<exists>r db'. checkout v no_faults req db = (Returned r, db')) \<longleftrightarrow>
        (\<exists>t db'. for_items v no_faults ?newOrder (items req) (Num 0) ?db1 = (Returned t, db'))"
    by (auto simp: no_faults_def checkout_def await_def query_def return_def Let_def
          tx_insert_orders_def tx_update_orders_totalAmount_def
        split: option.splits prod.splits outcome.splits)
  also have "\<dots> \<longleftrightarrow> stock_suffices ?db1 (items req)"
    by (rule for_items_passes)
  also have "\<dots> \<longleftrightarrow> stock_suffices db (items req)"
    by (simp add: stock_suffices_def stock_of_def)
  finally show ?thesis .
qed

lemma post_api_orders_passes:
  shows "(\<exists>oid t. fst (post_api_orders v no_faults req db) = Success oid t) \<longleftrightarrow>
         stock_suffices db (items req)"
proof -
  let ?db0 = "db\<lparr>issued := issued db @ [Begin]\<rparr>"
  have "(\<exists>oid t. fst (post_api_orders v no_faults req db) = Success oid t) \<longleftrightarrow>
        (\<exists>r db'. checkout v no_faults req ?db0 = (Returned r, db'))"
    by (cases "checkout v no_faults req ?db0")
       (auto simp: no_faults_def post_api_orders_def db_transaction_def query_def Let_def
          split: option.splits prod.splits outcome.splits)
  also have "\<dots> \<longleftrightarrow> stock_suffices ?db0 (items req)"
    by (rule checkout_passes)
  also have "\<dots> \<longleftrightarrow> stock_suffices db (items req)"
    by (simp add: stock_suffices_def stock_of_def)
  finally show ?thesis .
qed

section \<open>What a checkout leaves alone\<close>

lemma frame_preorder: "reflp (frame S)" "transp (frame S)"
proof -
  show "reflp (frame S)" by (simp add: reflp_def frame_def)
  show "transp (frame S)"
  proof (rule transpI)
    fix a b c :: database
    assume ab: "frame S a b" and bc: "frame S b c"
    from ab obtain n1 where n1: "issued b = issued a @ n1"
      "\<forall>s \<in> set n1. on_table s \<noteq> Some Users \<and> on_table s \<noteq> Some Categories"
      by (auto simp: frame_def)
    from bc obtain n2 where n2: "issued c = issued b @ n2"
      "\<forall>s \<in> set n2. on_table s \<noteq> Some Users \<and> on_table s \<noteq> Some Categories"
      by (auto simp: frame_def)
    have "issued c = issued a @ (n1 @ n2)" using n1 n2 by simp
    moreover have "\<forall>s \<in> set (n1 @ n2). on_table s \<noteq> Some Users \<and> on_table s \<noteq> Some Categories"
      using n1 n2 by auto
    ultimately have "\<exists>new. issued c = issued a @ new \<and>
        (\<forall>s \<in> set new. on_table s \<noteq> Some Users \<and> on_table s \<noteq> Some Categories)"
      by blast
    then show "frame S a c" using ab bc by (simp add: frame_def)
  qed
qed

lemma frame_issued:
  "on_table s \<noteq> Some Users \<Longrightarrow> on_table s \<noteq> Some Categories \<Longrightarrow>
   frame S db (db\<lparr>issued := issued db @ [s]\<rparr>)"
  by (simp add: frame_def)

lemma frame_same_catalog:
  "users db' = users db \<Longrightarrow> categories db' = categories db \<Longrightarrow> products db' = products db \<Longrightarrow>
   issued db' = issued db \<Longrightarrow> frame S db db'"
  by (simp add: frame_def)

lemma blank_set_stock:
  "map (\<lambda>p. p\<lparr>stock := 0\<rparr>) (map (\<lambda>p. if p_id p = x then p\<lparr>stock := n\<rparr> else p) ps) =
   map (\<lambda>p. p\<lparr>stock := 0\<rparr>) ps"
  by (induction ps) auto

lemma others_set_stock:
  "x \<in> S \<Longrightarrow>
   filter (\<lambda>p. p_id p \<notin> S) (map (\<lambda>p. if p_id p = x then p\<lparr>stock := n\<rparr> else p) ps) =
   filter (\<lambda>p. p_id p \<notin> S) ps"
  by (induction ps) auto

lemma keeps_frame_findFirst: "keeps (frame S) (tx_findFirst_products F x)"
  unfolding tx_findFirst_products_def
  by (rule keeps_query) (simp_all add: frame_preorder frame_issued frame_same_catalog)

lemma keeps_frame_insert_orderItems: "keeps (frame S) (tx_insert_orderItems F a b c d)"
  unfolding tx_insert_orderItems_def
  by (rule keeps_query) (simp_all add: frame_preorder frame_issued frame_same_catalog)

lemma keeps_frame_update_stock: "x \<in> S \<Longrightarrow> keeps (frame S) (tx_update_products_stock F n x)"
  unfolding tx_update_products_stock_def
  by (rule keeps_query)
     (simp_all add: frame_preorder frame_issued, simp add: frame_def blank_set_stock others_set_stock)

lemma keeps_frame_process_item:
  "productId it \<in> S \<Longrightarrow> keeps (frame S) (process_item v F newOrder it t)"
  unfolding process_item_def after_findFirst_def Let_def
  by (intro keeps_await keeps_frame_findFirst frame_preorder)
     (auto split: option.split intro!: keeps_await keeps_throw keeps_return frame_preorder
        keeps_frame_insert_orderItems keeps_frame_update_stock)

lemma keeps_frame_checkout: "keeps (frame (productId ` set (items req))) (checkout v F req)"
  unfolding checkout_def tx_insert_orders_def tx_update_orders_totalAmount_def
  by (intro keeps_await keeps_query keeps_return keeps_for_items keeps_frame_process_item
        frame_preorder frame_issued)
     (simp_all add: frame_same_catalog Let_def)

lemma frame_post_api_orders:
  "frame (productId ` set (items req)) db (snd (post_api_orders v F req db))"
proof -
  let ?S = "productId ` set (items req)"
  let ?db0 = "db\<lparr>issued := issued db @ [Begin]\<rparr>"
  obtain r db' where run: "db_transaction F (checkout v F req) db = (r, db')"
    by (cases "db_transaction F (checkout v F req) db")
  have 0: "frame ?S db ?db0" by (simp add: frame_issued)
  have cb: "frame ?S ?db0 (snd (checkout v F req ?db0))"
    using keeps_frame_checkout[of req v F] by (simp add: keeps_def)
  have "frame ?S db db'"
    using run
  proof (cases rule: db_transaction_cases)
    case (begin_failed m)
    then show ?thesis using 0 by simp
  next
    case (rolled_back e db2)
    from cb rolled_back(1) obtain new where
      "issued db2 = issued ?db0 @ new"
      "\<forall>s \<in> set new. on_table s \<noteq> Some Users \<and> on_table s \<noteq> Some Categories"
      by (auto simp: frame_def)
    then have "issued db' = issued db @ (Begin # new @ [Rollback]) \<and>
       (\<forall>s \<in> set (Begin # new @ [Rollback]). on_table s \<noteq> Some Users \<and> on_table s \<noteq> Some Categories)"
      using rolled_back(3) by (simp add: rollback_def)
    then have "\<exists>new. issued db' = issued db @ new \<and>
       (\<forall>s \<in> set new. on_table s \<noteq> Some Users \<and> on_table s \<noteq> Some Categories)"
      by blast
    then show ?thesis using rolled_back(3) by (simp add: frame_def rollback_def)
  next
    case (commit_failed a db2 m)
    from cb commit_failed(1) obtain new where
      "issued db2 = issued ?db0 @ new"
      "\<forall>s \<in> set new. on_table s \<noteq> Some Users \<and> on_table s \<noteq> Some Categories"
      by (auto simp: frame_def)
    then have "issued db' = issued db @ (Begin # new @ [Commit]) \<and>
       (\<forall>s \<in> set (Begin # new @ [Commit]). on_table s \<noteq> Some Users \<and> on_table s \<noteq> Some Categories)"
      using commit_failed(3) by (simp add: rollback_def)
    then have "\<exists>new. issued db' = issued db @ new \<and>
       (\<forall>s \<in> set new. on_table s \<noteq> Some Users \<and> on_table s \<noteq> Some Categories)"
      by blast
    then show ?thesis using commit_failed(3) by (simp add: frame_def rollback_def)
  next
    case (committed a db2)
    have 1: "frame ?S ?db0 db2" using cb committed(1) by simp
    have 2: "frame ?S db2 db'" using committed(3) by (simp add: frame_issued)
    from 0 1 2 show ?thesis using frame_preorder(2)[of ?S] by (blast dest: transpD)
  qed
  then show ?thesis using run
    by (simp add: post_api_orders_def split: outcome.split prod.split)
qed

section \<open>The scenarios of the specification\<close>

text \<open>
  Product \<open>p1\<close> has stock 5 and price 10.00. A first order of three units goes through;
  the same order again, on the state the first one left, is refused and changes no row.
\<close>

lemma first_order:
  "post_api_orders Revised no_faults (cart [buy 1 3]) shop =
     (Success 1 (Num 30),
      shop\<lparr>products := [p1\<lparr>stock := 2\<rparr>, p2],
           orders := [\<lparr>o_id = 1, o_customerName = ''Ani'', o_address = ''Jl. Mawar 1'',
                       totalAmount = Num 30, status = Some ''pending''\<rparr>],
           orderItems := [\<lparr>oi_id = 1, orderId = 1, oi_productId = 1, oi_quantity = 3,
                           priceAtTime = 10\<rparr>],
           orders_id_seq := 2, order_items_id_seq := 2,
           issued := [Begin, Insert Orders, Select Products, Insert OrderItems,
                      Update Products, Update Orders, Commit]\<rparr>)"
  by (simp add: run_defs)

lemma second_order:
  "post_api_orders Revised no_faults (cart [buy 1 3])
       (snd (post_api_orders Revised no_faults (cart [buy 1 3]) shop)) =
     (Failure ''Stok p1 tidak mencukupi!'',
      (snd (post_api_orders Revised no_faults (cart [buy 1 3]) shop))
        \<lparr>orders_id_seq := 3,
         issued := [Begin, Insert Orders, Select Products, Insert OrderItems,
                    Update Products, Update Orders, Commit,
                    Begin, Insert Orders, Select Products, Rollback]\<rparr>)"
  unfolding first_order by (simp add: run_defs)


lemma shop_stock: "stock_of shop 1 = Some 5" "stock_of shop 2 = Some 1"
  by (simp_all add: stock_of_def shop_def p1_def p2_def)

section \<open>Atomicity\<close>

lemma two_threes_rejected:
  "post_api_orders Revised no_faults (cart [buy 1 3, buy 1 3]) shop =
     (Failure ''Stok p1 tidak mencukupi!'',
      shop\<lparr>orders_id_seq := 2, order_items_id_seq := 2,
           issued := [Begin, Insert Orders, Select Products, Insert OrderItems,
                      Update Products, Select Products, Rollback]\<rparr>)"
  by (simp add: run_defs)

text \<open>
  When the second item is refused, the callback has already inserted the order and the
  first line and has taken three units off the stock: the rollback has work to do.
\<close>

lemma two_threes_before_rollback:
  "map stock (products (snd (checkout Revised no_faults (cart [buy 1 3, buy 1 3]) shop)))
     = [2, 1] \<and>
   length (orders (snd (checkout Revised no_faults (cart [buy 1 3, buy 1 3]) shop))) = 1 \<and>
   length (orderItems (snd (checkout Revised no_faults (cart [buy 1 3, buy 1 3]) shop))) = 1"
  by (simp add: run_defs)

text \<open>The same when the store itself fails, here at the update of the stock.\<close>

lemma storage_fault_rolled_back:
  "post_api_orders Revised (\<lambda>k. if k = 4 then Some ''connection lost'' else None)
       (cart [buy 1 3]) shop =
     (Failure ''connection lost'',
      shop\<lparr>orders_id_seq := 2, order_items_id_seq := 2,
           issued := [Begin, Insert Orders, Select Products, Insert OrderItems,
                      Update Products, Rollback]\<rparr>)"
  by (simp add: run_defs)

text \<open>
  Claim C1. Whenever \<^verbatim>\<open>POST /api/orders\<close> answers with a failure, whatever was thrown
  (missing product, insufficient stock, an error of the store at any statement, a
  refused commit), the rows of all five tables are those of before the call: no order,
  no order item and no change of stock remains.
\<close>

theorem failed_order_leaves_no_trace:
  assumes "post_api_orders v F req db = (Failure m, db')"
  shows "users db' = users db \<and> categories db' = categories db \<and>
         products db' = products db \<and> orders db' = orders db \<and>
         orderItems db' = orderItems db"
proof -
  obtain r where run: "db_transaction F (checkout v F req) db = (r, db')"
    using assms
    by (cases "db_transaction F (checkout v F req) db")
       (auto simp: post_api_orders_def split: outcome.splits prod.splits)
  have "\<exists>e. r = Threw e"
    using assms run by (cases r) (auto simp: post_api_orders_def)
  with run show ?thesis
    by (cases rule: db_transaction_cases) (simp_all add: rollback_def)
qed

theorem failed_order_leaves_no_trace_witness:
  "fst (post_api_orders Revised no_faults (cart [buy 1 3, buy 1 3]) shop)
     = Failure ''Stok p1 tidak mencukupi!'' \<and>
   users (snd (post_api_orders Revised no_faults (cart [buy 1 3, buy 1 3]) shop)) = users shop \<and>
   categories (snd (post_api_orders Revised no_faults (cart [buy 1 3, buy 1 3]) shop))
     = categories shop \<and>
   products (snd (post_api_orders Revised no_faults (cart [buy 1 3, buy 1 3]) shop)) = [p1, p2] \<and>
   orders (snd (post_api_orders Revised no_faults (cart [buy 1 3, buy 1 3]) shop)) = [] \<and>
   orderItems (snd (post_api_orders Revised no_faults (cart [buy 1 3, buy 1 3]) shop)) = []"
proof -
  let ?run = "post_api_orders Revised no_faults (cart [buy 1 3, buy 1 3]) shop"
  have answer: "fst ?run = Failure ''Stok p1 tidak mencukupi!''"
    by (simp add: two_threes_rejected)
  then have run: "?run = (Failure ''Stok p1 tidak mencukupi!'', snd ?run)"
    by (simp add: prod_eq_iff)
  have before: "products shop = [p1, p2] \<and> orders shop = [] \<and> orderItems shop = []"
    by (simp add: shop_def)
  show ?thesis
    using failed_order_leaves_no_trace[OF run] before answer by simp
qed

section \<open>Conservation\<close>

lemma lines_of_new_order:
  assumes "\<forall>oi \<in> set (orderItems db). orderId oi < oid"
    and "orderItems db' = orderItems db @ new"
    and "map orderId new = replicate n oid"
  shows "filter (\<lambda>oi. orderId oi = oid) (orderItems db') = new"
proof -
  have old: "filter (\<lambda>oi. orderId oi = oid) (orderItems db) = []"
    using assms(1) by (auto simp: filter_empty_conv)
  have "\<forall>oi \<in> set new. orderId oi = oid"
  proof
    fix oi assume "oi \<in> set new"
    then have "orderId oi \<in> set (map orderId new)" by simp
    then show "orderId oi = oid" unfolding assms(3) by simp
  qed
  then have "filter (\<lambda>oi. orderId oi = oid) new = new"
    by (rule filter_all_same)
  then show ?thesis using old assms(2) by simp
qed

text \<open>
  Claim C2, as amended. When \<^verbatim>\<open>POST /api/orders\<close> answers with success, the stock found
  afterwards for any product is the stock found before less the sum of the quantities of
  all items of the request that name this product: less \<open>q\<close> for a product ordered once with
  quantity \<open>q\<close>, less both quantities for a product ordered twice. In the version that
  reads \<^verbatim>\<open>product.price\<close> the returned total is the sum of \<open>priceAtTime * quantity\<close> over
  the order items that carry the new order's identifier as double arithmetic forms it:
  line after line from 0, in the order of the items, every product and every sum rounded
  to the nearest double (no order item carrying that identifier before; identifiers come
  from the \<open>serial\<close> sequence).
\<close>

theorem conservation:
  assumes "post_api_orders v F req db = (Success oid t, db')"
    and "\<forall>oi \<in> set (orderItems db). orderId oi < orders_id_seq db"
  shows "(\<forall>x. stock_of db' x = map_option (\<lambda>s. s - demand (items req) x) (stock_of db x)) \<and>
         (v = Revised \<longrightarrow>
            t = lines_total (filter (\<lambda>oi. orderId oi = oid) (orderItems db')))"
proof -
  note e = success_effects[OF assms(1)]
  from e(3) obtain new where
    n: "orderItems db' = orderItems db @ new"
       "map orderId new = replicate (length (items req)) oid"
       "v = Revised \<longrightarrow> t = lines_total new"
    by blast
  have "filter (\<lambda>oi. orderId oi = oid) (orderItems db') = new"
    using assms(2) n(1,2) unfolding e(1) by (rule lines_of_new_order)
  with n(3) have "v = Revised \<longrightarrow>
      t = lines_total (filter (\<lambda>oi. orderId oi = oid) (orderItems db'))"
    by simp
  then show ?thesis using e(2) by blast
qed

text \<open>
  The first scenario: three units of \<open>p1\<close> are ordered, the answer is a success with
  total 30, the stock goes from 5 to 2, and the order's lines sum to 30, in doubles and
  exactly: no step rounds.
\<close>

theorem conservation_witness:
  "fst (post_api_orders Revised no_faults (cart [buy 1 3]) shop) = Success 1 (Num 30) \<and>
   stock_of shop 1 = Some 5 \<and>
   stock_of (snd (post_api_orders Revised no_faults (cart [buy 1 3]) shop)) 1 = Some 2 \<and>
   lines_total (filter (\<lambda>oi. orderId oi = 1)
      (orderItems (snd (post_api_orders Revised no_faults (cart [buy 1 3]) shop)))) = Num 30 \<and>
   order_value (snd (post_api_orders Revised no_faults (cart [buy 1 3]) shop)) 1 = 30"
proof -
  let ?run = "post_api_orders Revised no_faults (cart [buy 1 3]) shop"
  have answer: "fst ?run = Success 1 (Num 30)" by (simp add: first_order)
  then have run: "?run = (Success 1 (Num 30), snd ?run)" by (simp add: prod_eq_iff)
  have wf: "\<forall>oi \<in> set (orderItems shop). orderId oi < orders_id_seq shop"
    by (simp add: shop_def)
  have before: "stock_of shop 1 = Some 5" by (simp add: stock_of_def shop_def p1_def)
  have asked: "demand (items (cart [buy 1 3])) 1 = 3" by (simp add: demand_def cart_def buy_def)
  have exact: "order_value (snd ?run) 1 = 30"
    by (simp add: first_order order_value_def line_value_def)
  from conservation[OF run wf]
  have "stock_of (snd ?run) 1 = map_option (\<lambda>s. s - demand (items (cart [buy 1 3])) 1) (stock_of shop 1)"
    and "Num 30 = lines_total (filter (\<lambda>oi. orderId oi = 1) (orderItems (snd ?run)))"
    by blast+
  then show ?thesis using answer before asked exact by simp
qed

text \<open>
  As the claim was first worded it fails twice. For each ordered item \<open>(p, q)\<close> the
  stock afterwards is not the stock before less \<open>q\<close> when the request names a product
  twice: two items \<open>(p1, 1)\<close> leave 3, not \<open>5 - 1\<close>. And the returned total is not the
  sum of \<open>priceAtTime * quantity\<close>: three units at 0.10 are worth 0.30, and the total
  returned is the double 0.30000000000000004.
\<close>

theorem conservation_counterexample:
  "fst (post_api_orders Revised no_faults (cart [buy 1 1, buy 1 1]) shop) = Success 1 (Num 20) \<and>
   stock_of shop 1 = Some 5 \<and>
   stock_of (snd (post_api_orders Revised no_faults (cart [buy 1 1, buy 1 1]) shop)) 1 = Some 3 \<and>
   stock_of (snd (post_api_orders Revised no_faults (cart [buy 1 1, buy 1 1]) shop)) 1
     \<noteq> Some (5 - 1) \<and>
   fst (post_api_orders Revised no_faults (cart [buy 7 3]) kiosk)
     = Success 1 (Num (1351079888211149 / 4503599627370496)) \<and>
   order_value (snd (post_api_orders Revised no_faults (cart [buy 7 3]) kiosk)) 1 = 3 / 10 \<and>
   Num (order_value (snd (post_api_orders Revised no_faults (cart [buy 7 3]) kiosk)) 1)
     \<noteq> Num (1351079888211149 / 4503599627370496)"
  by (simp add: run_defs stock_of_def kiosk_def permen_def order_value_def line_value_def
        to_double_3_tenths to_double_0_30000000000000004)

section \<open>Price\<close>

text \<open>
  In \<open>Original\<close> the first item turns the running total into \<open>NaN\<close>, and it stays so.
\<close>

lemma for_items_Original_total:
  assumes "for_items Original F newOrder its tot db = (Returned t, db')"
  shows "t = (if its = [] then tot else NaN)"
  using assms
proof (induction its arbitrary: tot db)
  case Nil
  then show ?case by (simp add: return_def)
next
  case (Cons it its)
  from Cons.prems obtain t1 db1 where
    step: "process_item Original F newOrder it tot db = (Returned t1, db1)" and
    rest: "for_items Original F newOrder its t1 db1 = (Returned t, db')"
    by (auto simp: await_def split: prod.splits outcome.splits)
  from step have "t1 = NaN"
    by (cases rule: process_item_Returned) (cases tot, simp_all)
  with Cons.IH[OF rest] show ?case by simp
qed

lemma original_total_NaN:
  assumes "post_api_orders Original F req db = (Success oid t, db')" and "items req \<noteq> []"
  shows "t = NaN"
proof -
  from assms(1) obtain db2 where
    cb: "checkout Original F req (db\<lparr>issued := issued db @ [Begin]\<rparr>) = (Returned (oid, t), db2)"
    by (rule post_api_orders_Success)
  from checkout_Returned[OF cb] for_items_Original_total assms(2) show ?thesis
    by fastforce
qed

text \<open>
  In both versions an item is read through \<open>productId\<close> and \<open>quantity\<close> only: a price the
  client puts into an item changes neither the answer nor the store.
\<close>

lemma process_item_reads:
  assumes a: "productId it = productId it'" and b: "quantity it = quantity it'"
  shows "process_item v F newOrder it tot = process_item v F newOrder it' tot"
  unfolding process_item_def after_findFirst_def a b by (rule refl)

lemma for_items_reads:
  "map productId its = map productId its' \<Longrightarrow> map quantity its = map quantity its' \<Longrightarrow>
   for_items v F newOrder its tot = for_items v F newOrder its' tot"
proof (induction its arbitrary: its' tot)
  case Nil
  then show ?case by simp
next
  case (Cons it its)
  then obtain it' rest where its': "its' = it' # rest" by (cases its') auto
  with Cons.prems have h: "productId it = productId it'" "quantity it = quantity it'"
    "map productId its = map productId rest" "map quantity its = map quantity rest"
    by auto
  have "for_items v F newOrder its = for_items v F newOrder rest"
    using Cons.IH[OF h(3,4)] by (rule ext)
  then show ?case using its' process_item_reads[OF h(1,2)] by simp
qed

lemma client_price_ignored:
  assumes "customerName r = customerName r'" "address r = address r'"
    and "map productId (items r) = map productId (items r')"
    and "map quantity (items r) = map quantity (items r')"
  shows "post_api_orders v F r db = post_api_orders v F r' db"
proof -
  have "checkout v F r = checkout v F r'"
    unfolding checkout_def using assms(1,2) for_items_reads[OF assms(3,4)] by simp
  then show ?thesis by (simp add: post_api_orders_def)
qed

text \<open>
  Claim C3: the total is the sum over the items of the product's stored unit price times
  the quantity. \<open>Revised\<close> computes it (the general statement is part of Claim C2 above);
  \<open>Original\<close> does not: on the scenario of the specification, three units of
  \<open>p1\<close> at 10.00, it answers with success and total \<open>NaN\<close> where \<open>Revised\<close> answers 30.
\<close>

theorem original_total_scenario:
  "fst (post_api_orders Original no_faults (cart [buy 1 3]) shop) = Success 1 NaN \<and>
   fst (post_api_orders Revised no_faults (cart [buy 1 3]) shop) = Success 1 (Num 30)"
  by (simp add: run_defs)

section \<open>Stock error\<close>

text \<open>
  With a store that raises no error, the only thing the handler ever throws is the stock
  error of some item: for a product that is missing, or for one whose stock, as read for
  this item, is below the quantity asked.
\<close>

lemma process_item_throws:
  assumes "process_item v no_faults newOrder it tot db = (Threw e, db')"
  shows "(find (\<lambda>p. p_id p = productId it) (products db) = None \<and>
            e = Error (stock_message v None)) \<or>
         (\<exists>p. find (\<lambda>p. p_id p = productId it) (products db) = Some p \<and>
            stock p < quantity it \<and> e = Error (stock_message v (Some p)))"
  using assms
  by (auto simp: process_item_def after_findFirst_def await_def query_def throw_def return_def Let_def no_faults_def
        tx_findFirst_products_def tx_insert_orderItems_def tx_update_products_stock_def
      split: option.splits prod.splits outcome.splits if_splits)

lemma for_items_throws:
  assumes "for_items v no_faults newOrder its tot db = (Threw e, db')"
  shows "\<exists>it \<in> set its. e = Error (stock_message v None) \<or>
           (\<exists>p. p_id p = productId it \<and> stock p < quantity it \<and>
                e = Error (stock_message v (Some p)))"
  using assms
proof (induction its arbitrary: tot db)
  case Nil
  then show ?case by (simp add: return_def)
next
  case (Cons it its)
  show ?case
  proof (cases "process_item v no_faults newOrder it tot db")
    case (Pair r db1)
    show ?thesis
    proof (cases r)
      case (Threw e1)
      with Pair Cons.prems have "process_item v no_faults newOrder it tot db = (Threw e, db')"
        by (simp add: await_def)
      from process_item_throws[OF this] show ?thesis
        by (auto dest: find_p_id)
    next
      case (Returned t1)
      with Pair Cons.prems have "for_items v no_faults newOrder its t1 db1 = (Threw e, db')"
        by (simp add: await_def)
      from Cons.IH[OF this] show ?thesis by auto
    qed
  qed
qed

lemma stock_error_only:
  assumes "fst (post_api_orders v no_faults req db) = Failure m"
  shows "\<exists>it \<in> set (items req). m = stock_message v None \<or>
           (\<exists>p. p_id p = productId it \<and> stock p < quantity it \<and> m = stock_message v (Some p))"
proof -
  let ?db0 = "db\<lparr>issued := issued db @ [Begin]\<rparr>"
  let ?newOrder = "\<lparr>o_id = orders_id_seq db, o_customerName = customerName req,
      o_address = address req, totalAmount = Num 0, status = Some ''pending''\<rparr>"
  let ?db1 = "?db0\<lparr>issued := issued ?db0 @ [Insert Orders], orders := orders ?db0 @ [?newOrder],
           orders_id_seq := orders_id_seq ?db0 + 1\<rparr>"
  obtain r db2 where loop: "for_items v no_faults ?newOrder (items req) (Num 0) ?db1 = (r, db2)"
    by (cases "for_items v no_faults ?newOrder (items req) (Num 0) ?db1")
  from assms loop obtain e where "r = Threw e" "m = message e"
    by (cases r)
       (auto simp: post_api_orders_def db_transaction_def checkout_def await_def query_def
          return_def tx_insert_orders_def tx_update_orders_totalAmount_def no_faults_def Let_def
        split: option.splits prod.splits outcome.splits)
  with for_items_throws[of v ?newOrder "items req" "Num 0" ?db1 e db2] loop
  show ?thesis by fastforce
qed

text \<open>
  Claim C5: the stock error names the product, and falls back to a generic name when the
  product does not exist. For an item naming product 99, which the shop does not have,
  \<open>Revised\<close> falls back to \<open>Produk\<close>; \<open>Original\<close> has no fallback and prints \<open>undefined\<close>.
\<close>

theorem original_missing_product_message:
  "fst (post_api_orders Original no_faults (cart [buy 99 1]) shop)
     = Failure ''Stok undefined kurang!'' \<and>
   fst (post_api_orders Revised no_faults (cart [buy 99 1]) shop)
     = Failure ''Stok Produk tidak mencukupi!''"
  by (simp add: run_defs)

text \<open>Both versions name a product that exists: four units of \<open>p2\<close>, of which there is one.\<close>

lemma stock_error_names_product:
  "fst (post_api_orders Original no_faults (cart [buy 2 4]) shop) = Failure ''Stok p2 kurang!'' \<and>
   fst (post_api_orders Revised no_faults (cart [buy 2 4]) shop)
     = Failure ''Stok p2 tidak mencukupi!''"
  by (simp add: run_defs)

section \<open>Empty list of items\<close>

lemma map_fresh_id:
  "\<forall>ord \<in> set os. o_id ord < n \<Longrightarrow>
   map (\<lambda>ord. if o_id ord = n then ord\<lparr>totalAmount := t\<rparr> else ord) os = os"
  by (induction os) auto

text \<open>
  Claim C6, as amended. A request with an empty list of items is not rejected. With a
  store that raises no error, and order identifiers below the sequence, the answer is a
  success with the next order identifier and total 0; the store has received \<open>BEGIN\<close>, an
  insert into \<open>orders\<close>, an update of \<open>orders\<close> and \<open>COMMIT\<close>; one order with total 0 and
  status \<open>pending\<close> is added, and nothing else changes: no order item, no product read or
  written.
\<close>

theorem empty_order_is_placed:
  assumes "items req = []" and "\<forall>ord \<in> set (orders db). o_id ord < orders_id_seq db"
  shows "post_api_orders v no_faults req db =
     (Success (orders_id_seq db) (Num 0),
      db\<lparr>orders := orders db @
            [\<lparr>o_id = orders_id_seq db, o_customerName = customerName req,
              o_address = address req, totalAmount = Num 0, status = Some ''pending''\<rparr>],
         orders_id_seq := orders_id_seq db + 1,
         issued := issued db @ [Begin, Insert Orders, Update Orders, Commit]\<rparr>)"
  using assms
  by (simp add: post_api_orders_def db_transaction_def checkout_def await_def query_def
        return_def tx_insert_orders_def tx_update_orders_totalAmount_def no_faults_def Let_def
        map_fresh_id)

theorem empty_order_is_placed_witness:
  "post_api_orders Revised no_faults (cart []) shop =
     (Success 1 (Num 0),
      shop\<lparr>orders := [\<lparr>o_id = 1, o_customerName = ''Ani'', o_address = ''Jl. Mawar 1'',
                       totalAmount = Num 0, status = Some ''pending''\<rparr>],
           orders_id_seq := 2,
           issued := [Begin, Insert Orders, Update Orders, Commit]\<rparr>)"
proof -
  have a: "items (cart []) = []" by (simp add: cart_def)
  have b: "\<forall>ord \<in> set (orders shop). o_id ord < orders_id_seq shop" by (simp add: shop_def)
  show ?thesis
    using empty_order_is_placed[OF a b, of Revised]
    by (simp add: cart_def shop_def)
qed

text \<open>
  As first worded (an empty list is a validation error, with no access to the store) the
  claim fails: the empty cart is answered with success, an order is stored, four
  statements are issued.
\<close>

theorem empty_order_counterexample:
  "fst (post_api_orders Original no_faults (cart []) shop) = Success 1 (Num 0) \<and>
   orders (snd (post_api_orders Original no_faults (cart []) shop)) =
     [\<lparr>o_id = 1, o_customerName = ''Ani'', o_address = ''Jl. Mawar 1'',
       totalAmount = Num 0, status = Some ''pending''\<rparr>] \<and>
   issued (snd (post_api_orders Original no_faults (cart []) shop)) =
     [Begin, Insert Orders, Update Orders, Commit]"
  by (simp add: run_defs)

section \<open>Quantities that are not positive\<close>

lemma demand_nonpos:
  "\<forall>it \<in> set its. quantity it \<le> 0 \<Longrightarrow> demand its x \<le> 0"
  by (induction its) auto

text \<open>
  Claim C7, as amended. A quantity that is zero or negative is no ground for rejection:
  the only check on an item is that its product exists and has at least the quantity in
  stock. With a store that raises no error, a request all of whose items have a quantity
  of at most 0 and name a product with a stock of at least 0 goes through; one order
  item per item is inserted, with that quantity, and every stock becomes the stock
  before less the quantities asked of the product (the same for 0, more for a negative
  quantity).
\<close>

theorem nonpositive_quantity_accepted:
  assumes "\<forall>it \<in> set (items req). quantity it \<le> 0 \<and>
             (\<exists>s. stock_of db (productId it) = Some s \<and> 0 \<le> s)"
  shows "succeeded (fst (post_api_orders v no_faults req db)) \<and>
         (\<forall>x. stock_of (snd (post_api_orders v no_faults req db)) x =
              map_option (\<lambda>s. s - demand (items req) x) (stock_of db x)) \<and>
         (\<exists>new. orderItems (snd (post_api_orders v no_faults req db)) = orderItems db @ new \<and>
              map oi_productId new = map productId (items req) \<and>
              map oi_quantity new = map quantity (items req))"
proof -
  have "stock_suffices db (items req)"
    unfolding stock_suffices_def
  proof (intro allI impI)
    fix k assume k: "k < length (items req)"
    let ?it = "items req ! k"
    from k have mem: "?it \<in> set (items req)" by simp
    with assms obtain s where s: "stock_of db (productId ?it) = Some s" "0 \<le> s"
      and q: "quantity ?it \<le> 0" by blast
    have "\<forall>it \<in> set (take k (items req)). quantity it \<le> 0"
      using assms by (auto dest: in_set_takeD)
    then have "demand (take k (items req)) (productId ?it) \<le> 0" by (rule demand_nonpos)
    with s q show "\<exists>s. stock_of db (productId ?it) = Some s \<and>
        quantity ?it \<le> s - demand (take k (items req)) (productId ?it)"
      by auto
  qed
  then have ok: "succeeded (fst (post_api_orders v no_faults req db))"
    unfolding succeeded_iff post_api_orders_passes .
  then obtain oid t where run:
    "post_api_orders v no_faults req db = (Success oid t, snd (post_api_orders v no_faults req db))"
    by (auto simp: succeeded_iff prod_eq_iff)
  from success_effects(3)[OF run] success_effects(2)[OF run] ok show ?thesis by blast
qed

theorem nonpositive_quantity_accepted_witness:
  "succeeded (fst (post_api_orders Revised no_faults (cart [buy 1 (-3), buy 2 0]) shop)) \<and>
   stock_of (snd (post_api_orders Revised no_faults (cart [buy 1 (-3), buy 2 0]) shop)) 1 = Some 8 \<and>
   stock_of (snd (post_api_orders Revised no_faults (cart [buy 1 (-3), buy 2 0]) shop)) 2 = Some 1"
proof -
  have h: "\<forall>it \<in> set (items (cart [buy 1 (-3), buy 2 0])). quantity it \<le> 0 \<and>
             (\<exists>s. stock_of shop (productId it) = Some s \<and> 0 \<le> s)"
    by (simp add: cart_def buy_def shop_stock)
  have d: "demand (items (cart [buy 1 (-3), buy 2 0])) 1 = -3"
          "demand (items (cart [buy 1 (-3), buy 2 0])) 2 = 0"
    by (simp_all add: cart_def buy_def demand_def)
  from nonpositive_quantity_accepted[OF h, of Revised]
  have "succeeded (fst (post_api_orders Revised no_faults (cart [buy 1 (-3), buy 2 0]) shop))"
    and "\<And>x. stock_of (snd (post_api_orders Revised no_faults (cart [buy 1 (-3), buy 2 0]) shop)) x =
              map_option (\<lambda>s. s - demand (items (cart [buy 1 (-3), buy 2 0])) x) (stock_of shop x)"
    by blast+
  then show ?thesis by (simp add: d shop_stock)
qed

text \<open>
  As first worded (such a request is rejected before any change to the store) the claim
  fails: an item of \<open>-3\<close> units of \<open>p1\<close> is answered with success, its line is stored
  and the stock goes from 5 to 8; an item of 0 units is stored as well.
\<close>

theorem negative_quantity_counterexample:
  "fst (post_api_orders Revised no_faults (cart [buy 1 (-3)]) shop) = Success 1 (Num (-30)) \<and>
   map oi_quantity (orderItems (snd (post_api_orders Revised no_faults (cart [buy 1 (-3)]) shop)))
     = [-3] \<and>
   map stock (products shop) = [5, 1] \<and>
   map stock (products (snd (post_api_orders Revised no_faults (cart [buy 1 (-3)]) shop)))
     = [8, 1] \<and>
   fst (post_api_orders Revised no_faults (cart [buy 1 0]) shop) = Success 1 (Num 0) \<and>
   map oi_quantity (orderItems (snd (post_api_orders Revised no_faults (cart [buy 1 0]) shop)))
     = [0]"
  by (simp add: run_defs)

section \<open>A product named twice\<close>

text \<open>
  Claim C8. With a store that raises no error, a request goes through exactly when every
  item finds its product and asks no more than the stock at the start less what the
  items before it in the list have taken of the same product: the stock is read anew for
  each item, so the second of two items on one product is checked against what the first
  has left. When the request goes through, every product has lost the sum of the
  quantities asked of it, one decrement per item, and the store has received, for each
  item in turn, a read of \<open>products\<close>, an insert into \<open>order_items\<close> and an update of
  \<open>products\<close>.
\<close>

theorem each_item_sees_earlier_decrements:
  "(succeeded (fst (post_api_orders v no_faults req db)) \<longleftrightarrow>
      (\<forall>k<length (items req). \<exists>s.
          stock_of db (productId (items req ! k)) = Some s \<and>
          quantity (items req ! k) \<le> s - demand (take k (items req)) (productId (items req ! k)))) \<and>
   (succeeded (fst (post_api_orders v no_faults req db)) \<longrightarrow>
      (\<forall>x. stock_of (snd (post_api_orders v no_faults req db)) x =
           map_option (\<lambda>s. s - demand (items req) x) (stock_of db x)) \<and>
      issued (snd (post_api_orders v no_faults req db)) =
        issued db @ [Begin, Insert Orders] @
        concat (map (\<lambda>it. [Select Products, Insert OrderItems, Update Products]) (items req)) @
        [Update Orders, Commit])"
proof
  show "succeeded (fst (post_api_orders v no_faults req db)) \<longleftrightarrow>
      (\<forall>k<length (items req). \<exists>s.
          stock_of db (productId (items req ! k)) = Some s \<and>
          quantity (items req ! k) \<le> s - demand (take k (items req)) (productId (items req ! k)))"
    unfolding succeeded_iff post_api_orders_passes stock_suffices_def ..
  show "succeeded (fst (post_api_orders v no_faults req db)) \<longrightarrow>
      (\<forall>x. stock_of (snd (post_api_orders v no_faults req db)) x =
           map_option (\<lambda>s. s - demand (items req) x) (stock_of db x)) \<and>
      issued (snd (post_api_orders v no_faults req db)) =
        issued db @ [Begin, Insert Orders] @
        concat (map (\<lambda>it. [Select Products, Insert OrderItems, Update Products]) (items req)) @
        [Update Orders, Commit]"
  proof
    assume "succeeded (fst (post_api_orders v no_faults req db))"
    then obtain oid t where run:
      "post_api_orders v no_faults req db = (Success oid t, snd (post_api_orders v no_faults req db))"
      by (auto simp: succeeded_iff prod_eq_iff)
    from success_effects(2)[OF run] success_effects(4)[OF run]
    show "(\<forall>x. stock_of (snd (post_api_orders v no_faults req db)) x =
           map_option (\<lambda>s. s - demand (items req) x) (stock_of db x)) \<and>
      issued (snd (post_api_orders v no_faults req db)) =
        issued db @ [Begin, Insert Orders] @
        concat (map (\<lambda>it. [Select Products, Insert OrderItems, Update Products]) (items req)) @
        [Update Orders, Commit]"
      by blast
  qed
qed

text \<open>
  With five units of \<open>p1\<close>: 3 and then 2 go through and leave none; 3 and then 3 are
  refused, although each of them alone is within the five.
\<close>

theorem each_item_sees_earlier_decrements_witness:
  "succeeded (fst (post_api_orders Revised no_faults (cart [buy 1 3, buy 1 2]) shop)) \<and>
   stock_of (snd (post_api_orders Revised no_faults (cart [buy 1 3, buy 1 2]) shop)) 1 = Some 0 \<and>
   \<not> succeeded (fst (post_api_orders Revised no_faults (cart [buy 1 3, buy 1 3]) shop))"
proof -
  note a = each_item_sees_earlier_decrements[of Revised "cart [buy 1 3, buy 1 2]" shop]
  note b = each_item_sees_earlier_decrements[of Revised "cart [buy 1 3, buy 1 3]" shop]
  have ok: "succeeded (fst (post_api_orders Revised no_faults (cart [buy 1 3, buy 1 2]) shop))"
    unfolding a[THEN conjunct1]
    by (simp add: cart_def buy_def shop_stock demand_def less_Suc_eq)
  have "stock_of (snd (post_api_orders Revised no_faults (cart [buy 1 3, buy 1 2]) shop)) 1 =
     map_option (\<lambda>s. s - demand (items (cart [buy 1 3, buy 1 2])) 1) (stock_of shop 1)"
    using a ok by blast
  then have left: "stock_of (snd (post_api_orders Revised no_faults (cart [buy 1 3, buy 1 2]) shop)) 1
     = Some 0"
    by (simp add: cart_def buy_def shop_stock demand_def)
  have "\<not> succeeded (fst (post_api_orders Revised no_faults (cart [buy 1 3, buy 1 3]) shop))"
    unfolding b[THEN conjunct1]
    by (simp add: cart_def buy_def shop_stock demand_def less_Suc_eq)
  with ok left show ?thesis by blast
qed

section \<open>Stock stays non-negative\<close>

text \<open>
  Claim C9. From a store in which every stock is at least 0, every stock is at least 0
  in the state the transaction's callback leaves, whether it returns or throws, and in
  the state the handler leaves. This holds for every fault schedule; as a fault at
  statement \<open>k\<close> stops the callback in the state reached after the statements before
  it, every state the callback passes through is covered.
\<close>

theorem stock_never_negative:
  assumes "stock_nonneg db"
  shows "stock_nonneg (snd (checkout v F req db)) \<and>
         stock_nonneg (snd (post_api_orders v F req db))"
proof
  have cb: "\<And>d. stock_nonneg d \<Longrightarrow> stock_nonneg (snd (checkout v F req d))"
    using keeps_nonneg_checkout[of v F req] by (simp add: keeps_def nonneg_kept_def)
  show "stock_nonneg (snd (checkout v F req db))"
    using assms by (rule cb)
  obtain r db' where run: "db_transaction F (checkout v F req) db = (r, db')"
    by (cases "db_transaction F (checkout v F req) db")
  have "stock_nonneg db'"
    using run
  proof (cases rule: db_transaction_cases)
    case (committed a db2)
    have "stock_nonneg (snd (checkout v F req (db\<lparr>issued := issued db @ [Begin]\<rparr>)))"
      using assms by (intro cb) (simp add: stock_nonneg_def)
    then show ?thesis using committed by (simp add: stock_nonneg_def)
  qed (use assms in \<open>simp_all add: stock_nonneg_def rollback_def\<close>)
  then show "stock_nonneg (snd (post_api_orders v F req db))"
    using run by (simp add: post_api_orders_def split: outcome.split prod.split)
qed

theorem stock_never_negative_witness:
  "stock_nonneg shop \<and>
   stock_nonneg (snd (checkout Original no_faults (cart [buy 1 (-3), buy 1 8]) shop)) \<and>
   stock_nonneg (snd (post_api_orders Original no_faults (cart [buy 1 (-3), buy 1 8]) shop))"
proof -
  have h: "stock_nonneg shop"
    by (simp add: stock_nonneg_def shop_def p1_def p2_def)
  show ?thesis
    using h stock_never_negative[OF h, of Original no_faults "cart [buy 1 (-3), buy 1 8]"]
    by blast
qed

section \<open>Only the stock of ordered products changes\<close>

text \<open>
  Claim C10. Whatever the request, the version and the faults of the store, a call of
  \<^verbatim>\<open>POST /api/orders\<close> leaves the tables \<open>users\<close> and \<open>categories\<close> as they were; the
  table \<open>products\<close> is the same row for row once the column \<open>stock\<close> is blanked (name,
  description, price, image and category of every product are unchanged), and its rows
  whose identifier no item of the request names are unchanged altogether; and no
  statement issued during the call reads or writes \<open>users\<close> or \<open>categories\<close>.
\<close>

theorem checkout_touches_stock_only:
  "users (snd (post_api_orders v F req db)) = users db \<and>
   categories (snd (post_api_orders v F req db)) = categories db \<and>
   map (\<lambda>p. p\<lparr>stock := 0\<rparr>) (products (snd (post_api_orders v F req db)))
     = map (\<lambda>p. p\<lparr>stock := 0\<rparr>) (products db) \<and>
   filter (\<lambda>p. p_id p \<notin> productId ` set (items req)) (products (snd (post_api_orders v F req db)))
     = filter (\<lambda>p. p_id p \<notin> productId ` set (items req)) (products db) \<and>
   (\<exists>new. issued (snd (post_api_orders v F req db)) = issued db @ new \<and>
      (\<forall>s \<in> set new. on_table s \<noteq> Some Users \<and> on_table s \<noteq> Some Categories))"
  using frame_post_api_orders[of req db v F] unfolding frame_def .

theorem checkout_touches_stock_only_witness:
  "users (snd (post_api_orders Revised no_faults (cart [buy 1 3]) shop)) = users shop \<and>
   categories (snd (post_api_orders Revised no_faults (cart [buy 1 3]) shop)) = categories shop \<and>
   map (\<lambda>p. p\<lparr>stock := 0\<rparr>) (products (snd (post_api_orders Revised no_faults (cart [buy 1 3]) shop)))
     = [p1\<lparr>stock := 0\<rparr>, p2\<lparr>stock := 0\<rparr>] \<and>
   filter (\<lambda>p. p_id p \<noteq> 1) (products (snd (post_api_orders Revised no_faults (cart [buy 1 3]) shop)))
     = [p2] \<and>
   Select Users \<notin> set (issued (snd (post_api_orders Revised no_faults (cart [buy 1 3]) shop))) \<and>
   Select Categories \<notin> set (issued (snd (post_api_orders Revised no_faults (cart [buy 1 3]) shop)))"
proof -
  let ?db' = "snd (post_api_orders Revised no_faults (cart [buy 1 3]) shop)"
  note t = checkout_touches_stock_only[of Revised no_faults "cart [buy 1 3]" shop]
  have S: "productId ` set (items (cart [buy 1 3])) = {1}" by (simp add: cart_def buy_def)
  from t obtain new where new: "issued ?db' = issued shop @ new"
    "\<forall>s \<in> set new. on_table s \<noteq> Some Users \<and> on_table s \<noteq> Some Categories"
    by blast
  have "issued shop = []" by (simp add: shop_def)
  with new have log: "Select Users \<notin> set (issued ?db')" "Select Categories \<notin> set (issued ?db')"
    by auto
  have "map (\<lambda>p. p\<lparr>stock := 0\<rparr>) (products ?db') = map (\<lambda>p. p\<lparr>stock := 0\<rparr>) (products shop)"
    using t by blast
  then have blank: "map (\<lambda>p. p\<lparr>stock := 0\<rparr>) (products ?db') = [p1\<lparr>stock := 0\<rparr>, p2\<lparr>stock := 0\<rparr>]"
    by (simp add: shop_def)
  have "filter (\<lambda>p. p_id p \<notin> {1}) (products ?db') = filter (\<lambda>p. p_id p \<notin> {1}) (products shop)"
    using t unfolding S by blast
  then have others: "filter (\<lambda>p. p_id p \<noteq> 1) (products ?db') = [p2]"
    by (simp add: shop_def p1_def p2_def)
  from t log blank others show ?thesis by blast
qed


section \<open>Two calls for the last unit\<close>

text \<open>
  The cut is the handler's own sequence of statements: a call that runs its two parts
  and the commit with nothing in between is \<open>post_api_orders\<close>.
\<close>

lemma cut_is_the_handler:
  assumes "items req = item # rest"
    and "until_first_read F req item db = (Returned s, db1)"
    and "rest_of_callback v F item rest s db1 = (Returned a, db2)"
    and "commit F db2 = (Returned u, db3)"
  shows "post_api_orders v F req db = (Success (fst a) (snd a), db3)"
  using assms
  by (auto simp: post_api_orders_def db_transaction_def checkout_def process_item_def
        until_first_read_def rest_of_callback_def commit_def await_def query_def return_def
        tx_insert_orders_def tx_findFirst_products_def Let_def
      split: option.splits prod.splits outcome.splits)

text \<open>
  One call after the other, for the one unit of \<open>p2\<close>: the first is served, the second
  refused.
\<close>

lemma one_after_the_other:
  "fst (post_api_orders Original no_faults (cart [buy 2 1]) shop) = Success 1 NaN \<and>
   fst (post_api_orders Original no_faults (cart [buy 2 1])
          (snd (post_api_orders Original no_faults (cart [buy 2 1]) shop)))
     = Failure ''Stok p2 kurang!''"
  by (simp add: run_defs)

text \<open>
  Claim C4: of two simultaneous calls for the one unit of a product, exactly one succeeds
  and the other fails for lack of stock. The handler does not keep it. When both calls
  read the product before either writes, both find a stock of 1, both pass the check,
  both insert their line, both write the stock \<open>1 - 1 = 0\<close>, and both commit and return:
  two orders of one unit each on a stock of one. This is so in both versions (the total
  is \<open>NaN\<close> in \<open>Original\<close>, 2.5 in \<open>Revised\<close>).
\<close>

theorem both_calls_take_the_last_unit:
  "stock_of shop 2 = Some 1 \<and>
   map_option (\<lambda>(a1, a2, db). (a1, a2, stock_of db 2, map orderId (orderItems db),
                  map oi_productId (orderItems db), map oi_quantity (orderItems db), issued db))
     (both_read_then_both_write Original no_faults (cart [buy 2 1]) (cart [buy 2 1]) shop)
   = Some ((1, NaN), (2, NaN), Some 0, [1, 2], [2, 2], [1, 1],
       [Begin, Insert Orders, Select Products, Begin, Insert Orders, Select Products,
        Insert OrderItems, Update Products, Update Orders, Commit,
        Insert OrderItems, Update Products, Update Orders, Commit]) \<and>
   map_option (\<lambda>(a1, a2, db). (a1, a2, stock_of db 2, map oi_quantity (orderItems db)))
     (both_read_then_both_write Revised no_faults (cart [buy 2 1]) (cart [buy 2 1]) shop)
   = Some ((1, Num (5 / 2)), (2, Num (5 / 2)), Some 0, [1, 1])"
  by (simp add: both_read_then_both_write_def until_first_read_def rest_of_callback_def
        commit_def run_defs stock_of_def)

end
